theory Spec2Isabelle
  imports Main
begin

section \<open>JavaScript collections used by the snippets\<close>

text \<open>
  A JavaScript \<^verbatim>\<open>Set\<close> keeps its elements in insertion order and ignores the
  insertion of an element it already holds.  It is modelled by the list of its elements
  in insertion order; \<^verbatim>\<open>[...new Set(xs)]\<close> and \<^verbatim>\<open>Array.from(new Set(xs))\<close>
  are then \<open>new_Set xs\<close>.  Values are compared with HOL equality, which is what
  \<^verbatim>\<open>Set\<close> and \<^verbatim>\<open>===\<close> both do on strings, booleans, \<^verbatim>\<open>undefined\<close> and
  numbers other than NaN.
\<close>

fun set_add :: "'a list \<Rightarrow> 'a \<Rightarrow> 'a list" where
  "set_add s x = (if x \<in> set s then s else s @ [x])"

definition new_Set :: "'a list \<Rightarrow> 'a list" where
  "new_Set xs = foldl set_add [] xs"

text \<open>The position at which a value first occurs in a list (its length when it does not).\<close>

definition first_index :: "'a list \<Rightarrow> 'a \<Rightarrow> nat" where
  "first_index xs x = length (takeWhile (\<lambda>y. y \<noteq> x) xs)"

text \<open>
  \<open>first_occurrence_order xs ys\<close>: \<open>ys\<close> lists the distinct values of \<open>xs\<close>, each
  once, ordered by where they first occur in \<open>xs\<close>.
\<close>

definition first_occurrence_order :: "'a list \<Rightarrow> 'a list \<Rightarrow> bool" where
  "first_occurrence_order xs ys \<longleftrightarrow>
     distinct ys \<and> set ys = set xs \<and>
     sorted_wrt (\<lambda>u v. first_index xs u < first_index xs v) ys"

text \<open>
  \<open>is_first_match P xs k\<close>: position \<open>k\<close> holds the first element of \<open>xs\<close> that
  satisfies \<open>P\<close>, which is the element \<^verbatim>\<open>xs.find(P)\<close> returns.
\<close>

definition is_first_match :: "('a \<Rightarrow> bool) \<Rightarrow> 'a list \<Rightarrow> nat \<Rightarrow> bool" where
  "is_first_match P xs k \<longleftrightarrow> k < length xs \<and> P (xs ! k) \<and> (\<forall>j<k. \<not> P (xs ! j))"


section \<open>generateC: filter groups from column descriptors\<close>

text \<open>
  An option object \<^verbatim>\<open>{ label: ... }\<close>; a missing property reads as \<^verbatim>\<open>undefined\<close>,
  which is \<open>None\<close>.  A column descriptor has a \<^verbatim>\<open>field\<close>, a \<^verbatim>\<open>headerName\<close> and
  possibly an \<^verbatim>\<open>options\<close> array.  A row of \<^verbatim>\<open>b\<close> is an object, that is a map from
  property names to values.
\<close>

record 'v option_item =
  opt_label :: "'v option"

record ('h, 'v) column =
  field :: string
  headerName :: 'h
  options :: "'v option_item list option"

record ('h, 'v) filter_group =
  label :: 'h
  listOptions :: "'v option_item list"

text \<open>
  \<^verbatim>\<open>if (item.options)\<close> is true for every array, the empty one included, and false when
  the property is absent.
\<close>

definition generateC ::
  "('h, 'v) column list \<Rightarrow> (string \<rightharpoonup> 'v) list \<Rightarrow> ('h, 'v) filter_group list" where
  "generateC a b = map (\<lambda>item.
     (case options item of
        Some opts \<Rightarrow>
          \<lparr>label = headerName item,
           listOptions = map (\<lambda>opt. \<lparr>opt_label = opt_label opt\<rparr>) opts\<rparr>
      | None \<Rightarrow>
          (let field = field item;
               uniqueValues = new_Set (map (\<lambda>entry. entry field) b)
           in \<lparr>label = headerName item,
               listOptions = map (\<lambda>value. \<lparr>opt_label = value\<rparr>) uniqueValues\<rparr>))) a"

text \<open>The descriptors and rows the snippet itself runs \<open>generateC\<close> on.\<close>

definition example_a :: "(string, string) column list" where
  "example_a =
     [\<lparr>field = ''event_name'', headerName = ''Event Name'',
       options = Some [\<lparr>opt_label = Some ''Y''\<rparr>, \<lparr>opt_label = Some ''N''\<rparr>]\<rparr>,
      \<lparr>field = ''event_type'', headerName = ''Event Type'', options = None\<rparr>]"

definition example_b :: "(string \<rightharpoonup> string) list" where
  "example_b =
     [[''event_name'' \<mapsto> ''testing'', ''event_type'' \<mapsto> ''reme''],
      [''event_name'' \<mapsto> ''testing1'', ''event_type'' \<mapsto> ''reme1'']]"


section \<open>transformToBarData: stacked bar series from components\<close>

text \<open>
  A component carries \<^verbatim>\<open>name\<close>, \<^verbatim>\<open>label\<close>, \<^verbatim>\<open>value\<close> and \<^verbatim>\<open>color\<close>.  The
  function only copies values and supplies the number 0, so numbers are integers here.
  \<^verbatim>\<open>item ? item.value : 0\<close> tests the result of \<^verbatim>\<open>find\<close>, which is an object
  (true) or \<^verbatim>\<open>undefined\<close> (false); \<^verbatim>\<open>find(...)?.color\<close> is \<^verbatim>\<open>undefined\<close>
  (\<open>None\<close>) when nothing is found.
\<close>

record ('n, 'l, 'c) component =
  comp_name :: 'n
  comp_label :: 'l
  comp_value :: int
  comp_color :: 'c

record ('l, 'c) bar_series =
  series_data :: "int list"
  stack :: string
  series_label :: 'l
  series_color :: "'c option"

record ('n, 'l, 'c) bar_chart =
  barData :: "('l, 'c) bar_series list"
  labels :: "'n list"

definition transformToBarData :: "('n, 'l, 'c) component list \<Rightarrow> ('n, 'l, 'c) bar_chart" where
  "transformToBarData components =
     (let names = new_Set (map comp_name components);
          uniqueLabels = new_Set (map comp_label components);
          barData = map (\<lambda>label.
            (let data = map (\<lambda>name.
                   (case List.find (\<lambda>comp. comp_name comp = name \<and> comp_label comp = label)
                           components of
                      Some item \<Rightarrow> comp_value item
                    | None \<Rightarrow> 0)) names;
                 color = map_option comp_color
                   (List.find (\<lambda>comp. comp_label comp = label) components)
             in \<lparr>series_data = data, stack = ''A'', series_label = label,
                 series_color = color\<rparr>)) uniqueLabels
      in \<lparr>barData = barData, labels = names\<rparr>)"

text \<open>Three components: two quarters of one product and one quarter of another.\<close>

definition example_components :: "(string, string, string) component list" where
  "example_components =
     [\<lparr>comp_name = ''Q1'', comp_label = ''apples'', comp_value = 3, comp_color = ''red''\<rparr>,
      \<lparr>comp_name = ''Q2'', comp_label = ''apples'', comp_value = 5, comp_color = ''crimson''\<rparr>,
      \<lparr>comp_name = ''Q1'', comp_label = ''pears'', comp_value = 2, comp_color = ''green''\<rparr>]"


section \<open>Request hooks: errors, requests and the HTTP client\<close>

text \<open>
  What the hooks observe of a value thrown by the HTTP client: whether it is an instance of
  \<^verbatim>\<open>Error\<close>, its \<^verbatim>\<open>name\<close> and \<^verbatim>\<open>message\<close> (a missing message is the empty
  string: both are false in a condition), and the \<^verbatim>\<open>__CANCEL__\<close> mark that
  \<^verbatim>\<open>axios.isCancel\<close> tests.
\<close>

record js_error =
  is_Error :: bool
  err_name :: string
  err_message :: string
  cancel_mark :: bool

definition isCancel :: "js_error \<Rightarrow> bool" where
  "isCancel err = cancel_mark err"

text \<open>The error with which the client rejects a request whose signal is aborted.\<close>

definition CanceledError :: js_error where
  "CanceledError =
     \<lparr>is_Error = True, err_name = ''CanceledError'', err_message = ''canceled'',
      cancel_mark = True\<rparr>"

text \<open>\<^verbatim>\<open>new Error(message)\<close>\<close>

definition new_Error :: "string \<Rightarrow> js_error" where
  "new_Error msg = \<lparr>is_Error = True, err_name = ''Error'', err_message = msg, cancel_mark = False\<rparr>"

datatype 'a outcome = Fulfilled 'a | Rejected js_error

type_synonym config = "string \<rightharpoonup> string"

text \<open>
  A request handed to the client: its number, the abort controller (or cancel token) whose
  signal it carries, and its configuration.
\<close>

record request =
  rid :: nat
  signal :: nat
  req_config :: config

text \<open>
  Modelled from the spec: the HTTP client (\<^verbatim>\<open>axiosInstance\<close> of \<^verbatim>\<open>utils/axios\<close>, a
  wrapper of the axios library) is not among the sources.  It receives the cancellation
  signal with the request; a request whose signal is aborted ends by cancellation, and any
  other request ends with a response or with a failure (network, timeout, status) that is
  not a cancellation.
\<close>

definition client_outcome :: "bool \<Rightarrow> 'a outcome \<Rightarrow> bool" where
  "client_outcome was_aborted out =
     (case out of
        Fulfilled _ \<Rightarrow> \<not> was_aborted
      | Rejected e \<Rightarrow>
          (if was_aborted then e = CanceledError
           else \<not> cancel_mark e \<and> \<not> (is_Error e \<and> err_name e = ''CanceledError'')))"

text \<open>
  The state every hook exposes, \<^verbatim>\<open>{data, loading, error}\<close>, together with the
  bookkeeping of the model: the requests dispatched and not yet settled, the controllers
  that were aborted, the number of controllers and of requests created so far, the
  callbacks invoked, and whether the owning component is still mounted.
\<close>

record ('a, 'e) hook_state =
  data :: "'a option"
  loading :: bool
  error :: "'e option"
  pending :: "request list"
  aborted :: "nat set"
  controllers :: nat
  requests :: nat
  mounted :: bool

datatype ('a, 'e) callback = OnSuccess 'a | OnError 'e

text \<open>
  What can happen to a mounted hook: the component calls one of the functions the hook
  returned (\<^verbatim>\<open>run\<close>, \<^verbatim>\<open>refresh\<close>, \<^verbatim>\<open>reset\<close>, \<^verbatim>\<open>refetch\<close>,
  \<^verbatim>\<open>cancel\<close>), the component renders again with a configuration and an
  \<^verbatim>\<open>immediate\<close> flag, the client settles a request, or the component unmounts.
  Each is one uninterrupted piece of JavaScript: an \<^verbatim>\<open>async\<close> function runs up to
  its \<^verbatim>\<open>await\<close> when it is called and from there to its end when the awaited
  request settles.
\<close>

datatype 'a event =
    Run "config option" | Refresh | Reset
  | Refetch "config option" | Cancel | Render config bool
  | Settle nat "'a outcome" | Unmount

definition abort :: "nat \<Rightarrow> ('a, 'e, 'z) hook_state_scheme \<Rightarrow> ('a, 'e, 'z) hook_state_scheme" where
  "abort c s = s\<lparr>aborted := insert c (aborted s)\<rparr>"

definition dispatch ::
  "nat \<Rightarrow> config \<Rightarrow> ('a, 'e, 'z) hook_state_scheme \<Rightarrow> ('a, 'e, 'z) hook_state_scheme" where
  "dispatch c cfg s =
     s\<lparr>pending := pending s @ [\<lparr>rid = requests s, signal = c, req_config = cfg\<rparr>],
       requests := Suc (requests s)\<rparr>"

definition take_request ::
  "nat \<Rightarrow> ('a, 'e, 'z) hook_state_scheme \<Rightarrow> (request \<times> ('a, 'e, 'z) hook_state_scheme) option" where
  "take_request r s =
     (case List.find (\<lambda>q. rid q = r) (pending s) of
        None \<Rightarrow> None
      | Some q \<Rightarrow> Some (q, s\<lparr>pending := filter (\<lambda>q. rid q \<noteq> r) (pending s)\<rparr>))"


section \<open>useRequest (todolist/hooks/useRequest.ts)\<close>

record 'a RequestOptions =
  manual :: bool
  onSuccess :: bool
  onError :: bool
  initialData :: "'a option"

record 'a useRequest_state = "('a, js_error) hook_state" +
  abortControllerRef :: "nat option"
  calls :: "('a, js_error) callback list"
  returned :: "(nat \<times> 'a outcome) list"

definition useRequest :: "'a RequestOptions \<Rightarrow> 'a useRequest_state" where
  "useRequest opts =
     \<lparr>data = initialData opts, loading = \<not> manual opts, error = None,
      pending = [], aborted = {}, controllers = 0, requests = 0, mounted = True,
      abortControllerRef = None, calls = [], returned = []\<rparr>"

text \<open>
  \<^verbatim>\<open>run\<close> up to its \<^verbatim>\<open>await\<close>: the previous controller, if any, is aborted, a
  new one is created, and the request is handed to the client with the new signal.
\<close>

definition run_start :: "config \<Rightarrow> config option \<Rightarrow> 'a useRequest_state \<Rightarrow> 'a useRequest_state" where
  "run_start config runConfig s =
     (let s1 = (case abortControllerRef s of Some c \<Rightarrow> abort c s | None \<Rightarrow> s);
          c = controllers s1;
          s2 = s1\<lparr>controllers := Suc c, abortControllerRef := Some c\<rparr>;
          finalConfig = config ++ (case runConfig of Some rc \<Rightarrow> rc | None \<Rightarrow> Map.empty);
          s3 = s2\<lparr>loading := True\<rparr>;
          s4 = s3\<lparr>error := None\<rparr>
      in dispatch c finalConfig s4)"

text \<open>
  \<^verbatim>\<open>run\<close> from its \<^verbatim>\<open>await\<close> on: the \<^verbatim>\<open>try\<close>, \<^verbatim>\<open>catch\<close> and
  \<^verbatim>\<open>finally\<close> blocks.  The second component is how the promise that \<^verbatim>\<open>run\<close>
  returned settles.  \<open>onSuccess\<close> and \<open>onError\<close> say whether the caller supplied
  the callback; a supplied callback is recorded in \<open>calls\<close> and returns normally.
\<close>

definition run_settle ::
  "'a RequestOptions \<Rightarrow> 'a outcome \<Rightarrow> 'a useRequest_state \<Rightarrow> 'a useRequest_state \<times> 'a outcome" where
  "run_settle opts out s =
     (case out of
        Fulfilled res \<Rightarrow>
          (let s1 = s\<lparr>data := Some res\<rparr>;
               s2 = (if onSuccess opts then s1\<lparr>calls := calls s1 @ [OnSuccess res]\<rparr> else s1)
           in (s2\<lparr>loading := False\<rparr>, Fulfilled res))
      | Rejected err \<Rightarrow>
          if isCancel err then (s\<lparr>loading := False\<rparr>, Rejected err)
          else
            (let err' = (if is_Error err then err else new_Error ''Request failed'');
                 s1 = s\<lparr>error := Some err'\<rparr>;
                 s2 = (if onError opts then s1\<lparr>calls := calls s1 @ [OnError err']\<rparr> else s1)
             in (s2\<lparr>loading := False\<rparr>, Rejected err')))"

definition cleanup :: "'a useRequest_state \<Rightarrow> 'a useRequest_state" where
  "cleanup s = (case abortControllerRef s of Some c \<Rightarrow> abort c s | None \<Rightarrow> s)"

definition reset :: "'a RequestOptions \<Rightarrow> 'a useRequest_state \<Rightarrow> 'a useRequest_state" where
  "reset opts s = s\<lparr>data := initialData opts, error := None, loading := False\<rparr>"

definition rq_step ::
  "'a RequestOptions \<Rightarrow> config \<Rightarrow> 'a event \<Rightarrow> 'a useRequest_state \<Rightarrow> 'a useRequest_state option" where
  "rq_step opts config ev s =
     (case ev of
        Run runConfig \<Rightarrow> if mounted s then Some (run_start config runConfig s) else None
      | Refresh \<Rightarrow> if mounted s then Some (run_start config None s) else None
      | Reset \<Rightarrow> if mounted s then Some (reset opts s) else None
      | Settle r out \<Rightarrow>
          (case take_request r s of
             None \<Rightarrow> None
           | Some (q, s1) \<Rightarrow>
               if client_outcome (signal q \<in> aborted s1) out
               then (let (s2, res) = run_settle opts out s1
                     in Some (s2\<lparr>returned := returned s2 @ [(r, res)]\<rparr>))
               else None)
      | Unmount \<Rightarrow> if mounted s then Some ((cleanup s)\<lparr>mounted := False\<rparr>) else None
      | _ \<Rightarrow> None)"

fun rq_exec ::
  "'a RequestOptions \<Rightarrow> config \<Rightarrow> 'a event list \<Rightarrow> 'a useRequest_state \<Rightarrow> 'a useRequest_state option" where
  "rq_exec opts config [] s = Some s"
| "rq_exec opts config (ev # evs) s =
     (case rq_step opts config ev s of
        None \<Rightarrow> None
      | Some s1 \<Rightarrow> rq_exec opts config evs s1)"


section \<open>useAxios (axios4/useAxios.ts)\<close>

text \<open>
  Every render creates a controller (\<^verbatim>\<open>const controller = new AbortController()\<close>);
  controller \<open>n\<close> is the one of render \<open>n\<close>, counted from 0.  \<^verbatim>\<open>fetchData\<close> is
  memoised with no dependencies, so it is the function of render 0 and every request
  carries the signal of controller 0.  \<^verbatim>\<open>cancel\<close> is memoised on the controller, so each
  render has its own: the one the component holds aborts the controller of the latest
  render, and the one the effect's cleanup calls aborts the controller of the render in
  which the effect last ran (\<open>effect_controller\<close>).
\<close>

record 'a useAxios_state = "('a, js_error) hook_state" +
  props_config :: config
  props_immediate :: bool
  effect_controller :: nat

definition fetchData :: "config \<Rightarrow> 'a useAxios_state \<Rightarrow> 'a useAxios_state" where
  "fetchData currentConfig s =
     (let s1 = s\<lparr>loading := True\<rparr>;
          finalConfig = currentConfig
      in dispatch 0 finalConfig s1)"

text \<open>
  The rest of \<^verbatim>\<open>fetchData\<close>, run when the awaited request settles.  The
  \<^verbatim>\<open>catch\<close> block handles every rejection, so the promise \<^verbatim>\<open>fetchData\<close>
  returned is always fulfilled (with \<^verbatim>\<open>undefined\<close>).
\<close>

definition fetchData_settle ::
  "'a outcome \<Rightarrow> 'a useAxios_state \<Rightarrow> 'a useAxios_state \<times> unit outcome" where
  "fetchData_settle out s =
     (case out of
        Fulfilled response_data \<Rightarrow>
          (s\<lparr>data := Some response_data, loading := False, error := None\<rparr>, Fulfilled ())
      | Rejected err \<Rightarrow>
          if \<not> (is_Error err \<and> err_name err = ''CanceledError'')
          then (s\<lparr>data := None, loading := False, error := Some err\<rparr>, Fulfilled ())
          else (s, Fulfilled ()))"

definition cancel :: "nat \<Rightarrow> 'a useAxios_state \<Rightarrow> 'a useAxios_state" where
  "cancel controller s = abort controller s"

definition refetch :: "config option \<Rightarrow> 'a useAxios_state \<Rightarrow> 'a useAxios_state" where
  "refetch newConfig s =
     fetchData (case newConfig of Some c \<Rightarrow> c | None \<Rightarrow> props_config s) s"

text \<open>The first render and the effect that follows it.\<close>

definition useAxios :: "config \<Rightarrow> bool \<Rightarrow> 'a useAxios_state" where
  "useAxios config immediate =
     (let s = \<lparr>data = None, loading = immediate, error = None,
               pending = [], aborted = {}, controllers = 1, requests = 0, mounted = True,
               props_config = config, props_immediate = immediate, effect_controller = 0\<rparr>
      in if immediate then fetchData config s else s)"

text \<open>
  A later render.  The effect depends on \<^verbatim>\<open>[immediate, config.url]\<close>: when one of them
  changed, the cleanup of the previous effect runs and then the effect of this render.
\<close>

definition deps_changed :: "config \<Rightarrow> bool \<Rightarrow> 'a useAxios_state \<Rightarrow> bool" where
  "deps_changed config immediate s \<longleftrightarrow>
     immediate \<noteq> props_immediate s \<or> config ''url'' \<noteq> props_config s ''url''"

definition render :: "config \<Rightarrow> bool \<Rightarrow> 'a useAxios_state \<Rightarrow> 'a useAxios_state" where
  "render config immediate s =
     (let controller = controllers s;
          s1 = s\<lparr>controllers := Suc controller, props_config := config,
                 props_immediate := immediate\<rparr>
      in if deps_changed config immediate s
         then (let s2 = cancel (effect_controller s1) s1;
                   s3 = (if immediate then fetchData config s2 else s2)
               in s3\<lparr>effect_controller := controller\<rparr>)
         else s1)"

definition ua_step :: "'a event \<Rightarrow> 'a useAxios_state \<Rightarrow> 'a useAxios_state option" where
  "ua_step ev s =
     (case ev of
        Refetch newConfig \<Rightarrow> if mounted s then Some (refetch newConfig s) else None
      | Cancel \<Rightarrow> if mounted s then Some (cancel (controllers s - 1) s) else None
      | Render config immediate \<Rightarrow> if mounted s then Some (render config immediate s) else None
      | Settle r out \<Rightarrow>
          (case take_request r s of
             None \<Rightarrow> None
           | Some (q, s1) \<Rightarrow>
               if client_outcome (signal q \<in> aborted s1) out
               then Some (fst (fetchData_settle out s1))
               else None)
      | Unmount \<Rightarrow>
          if mounted s then Some ((cancel (effect_controller s) s)\<lparr>mounted := False\<rparr>) else None
      | _ \<Rightarrow> None)"

fun ua_exec :: "'a event list \<Rightarrow> 'a useAxios_state \<Rightarrow> 'a useAxios_state option" where
  "ua_exec [] s = Some s"
| "ua_exec (ev # evs) s =
     (case ua_step ev s of
        None \<Rightarrow> None
      | Some s1 \<Rightarrow> ua_exec evs s1)"


section \<open>useAxios with cache and retry (unnamed/part_007 and unnamed/part_008)\<close>

text \<open>
  The hooks of part_007 and part_008 are the same text up to the cache: part_007 stores the
  response data alone and serves it whenever it is a true value, part_008 stores it with
  the time of storage and serves it while it is younger than \<^verbatim>\<open>cacheExpiry\<close>.
  \<open>cacheExpiry = None\<close> gives the hook of part_007 (the stored time is then never read),
  \<open>cacheExpiry = Some e\<close> that of part_008.  \<open>truthy\<close> says which response data
  JavaScript takes for true.  \<^verbatim>\<open>method\<close>, \<^verbatim>\<open>data\<close>, \<^verbatim>\<open>params\<close> and
  \<^verbatim>\<open>headers\<close> of the options are passed to the client unchanged and appear as
  \<open>http_method\<close>, \<open>body\<close>, \<open>params\<close>, \<open>headers\<close>.  The state \<^verbatim>\<open>response\<close> of these
  hooks is the field \<open>data\<close>, and their \<^verbatim>\<open>error\<close> is a message.

  Neither snippet imports \<^verbatim>\<open>axios\<close>: both import \<^verbatim>\<open>axiosInstance\<close> and three
  types only.  Yet the body of the hook evaluates \<^verbatim>\<open>axios.CancelToken.source()\<close> at
  every render (it is the argument of \<^verbatim>\<open>useRef\<close>), and the \<^verbatim>\<open>catch\<close> block calls
  \<^verbatim>\<open>axios.isCancel\<close>.  The identifier is therefore looked up in the global scope:
  \<open>axios_bound\<close> says whether it is bound there, as it is when the library is loaded by
  a script element of the page.  When it is not, the first render throws a
  \<^verbatim>\<open>ReferenceError\<close>, no effect runs and no request is ever attempted.  Everything
  below \<open>useAxios_retry_render\<close> describes a hook that did render, in which
  \<^verbatim>\<open>axios\<close> is bound.
\<close>

record 'a UseAxiosOptions =
  url :: string
  http_method :: string
  body :: "string option"
  params :: "string option"
  headers :: "string option"
  cache :: bool
  cacheExpiry :: "int option"
  retry :: nat
  retryDelay :: nat
  truthy :: "'a \<Rightarrow> bool"

text \<open>
  \<open>timers\<close> counts the calls of \<^verbatim>\<open>fetchData\<close> scheduled with \<^verbatim>\<open>setTimeout\<close> that
  have not run yet.  The hook creates one cancel token source, which is controller 0.
\<close>

record 'a retry_state = "('a, string) hook_state" +
  cacheRef :: "string \<rightharpoonup> ('a \<times> int)"
  retryCountRef :: nat
  timers :: nat

definition useAxios_retry :: "'a retry_state" where
  "useAxios_retry =
     \<lparr>data = None, loading = True, error = None,
      pending = [], aborted = {}, controllers = 1, requests = 0, mounted = True,
      cacheRef = Map.empty, retryCountRef = 0, timers = 0\<rparr>"

definition ReferenceError :: js_error where
  "ReferenceError =
     \<lparr>is_Error = True, err_name = ''ReferenceError'', err_message = ''axios is not defined'',
      cancel_mark = False\<rparr>"

text \<open>The first render of the hook: the state above, or the error thrown.\<close>

definition useAxios_retry_render :: "bool \<Rightarrow> js_error + 'a retry_state" where
  "useAxios_retry_render axios_bound =
     (if axios_bound then Inr useAxios_retry else Inl ReferenceError)"

text \<open>
  \<^verbatim>\<open>cancel\<close> and the cleanup of the effect: both cancel the one token of the hook.
  The cleanup runs when the component unmounts and also before the effect runs again,
  which is the only way \<^verbatim>\<open>fetchData\<close> is called a second time (the hook returns no
  function to fetch again).
\<close>

definition retry_cancel :: "'a retry_state \<Rightarrow> 'a retry_state" where
  "retry_cancel s = abort 0 s"

definition request_config :: "'a UseAxiosOptions \<Rightarrow> config" where
  "request_config opts =
     (\<lambda>k. if k = ''url'' then Some (url opts)
          else if k = ''method'' then Some (http_method opts)
          else if k = ''data'' then body opts
          else if k = ''params'' then params opts
          else if k = ''headers'' then headers opts
          else None)"

text \<open>The test that guards the cached answer, at time \<open>now\<close> (\<^verbatim>\<open>Date.now()\<close>).\<close>

definition cache_hit :: "'a UseAxiosOptions \<Rightarrow> int \<Rightarrow> 'a retry_state \<Rightarrow> bool" where
  "cache_hit opts now s \<longleftrightarrow>
     cache opts \<and>
     (case cacheRef s (url opts) of
        None \<Rightarrow> False
      | Some (d, timestamp) \<Rightarrow>
          (case cacheExpiry opts of
             None \<Rightarrow> truthy opts d
           | Some expiry \<Rightarrow> now - timestamp < expiry))"

text \<open>The \<^verbatim>\<open>finally\<close> block.\<close>

definition retry_finally :: "'a UseAxiosOptions \<Rightarrow> 'a retry_state \<Rightarrow> 'a retry_state" where
  "retry_finally opts s = (if retryCountRef s \<ge> retry opts then s\<lparr>loading := False\<rparr> else s)"

text \<open>\<^verbatim>\<open>fetchData\<close> up to its \<^verbatim>\<open>await\<close>, or to its end when the cache answers.\<close>

definition retry_fetchData :: "'a UseAxiosOptions \<Rightarrow> int \<Rightarrow> 'a retry_state \<Rightarrow> 'a retry_state" where
  "retry_fetchData opts now s =
     (if cache_hit opts now s
      then retry_finally opts
             (s\<lparr>data := map_option fst (cacheRef s (url opts)), loading := False\<rparr>)
      else dispatch 0 (request_config opts) s)"

text \<open>
  \<^verbatim>\<open>fetchData\<close> from its \<^verbatim>\<open>await\<close> on.  A retry is a call of \<^verbatim>\<open>fetchData\<close>
  scheduled after \<^verbatim>\<open>retryDelay\<close>.
\<close>

definition retry_settle ::
  "'a UseAxiosOptions \<Rightarrow> int \<Rightarrow> 'a outcome \<Rightarrow> 'a retry_state \<Rightarrow> 'a retry_state" where
  "retry_settle opts now out s =
     (case out of
        Fulfilled result_data \<Rightarrow>
          (let s1 = s\<lparr>data := Some result_data\<rparr>;
               s2 = (if cache opts
                     then s1\<lparr>cacheRef := (cacheRef s1)(url opts \<mapsto> (result_data, now))\<rparr>
                     else s1)
           in retry_finally opts s2)
      | Rejected err \<Rightarrow>
          if isCancel err then retry_finally opts s
          else
            (let s1 = s\<lparr>error := Some (if err_message err \<noteq> [] then err_message err
                                        else ''Something went wrong'')\<rparr>;
                 s2 = (if retryCountRef s1 < retry opts
                       then s1\<lparr>retryCountRef := retryCountRef s1 + 1, timers := timers s1 + 1\<rparr>
                       else s1\<lparr>loading := False\<rparr>)
             in retry_finally opts s2))"

text \<open>
  One logical call all of whose attempts fail: \<^verbatim>\<open>fetchData\<close> is called, and the
  request it dispatches is rejected by the client, with the cancellation when the token it
  carries is cancelled and with \<open>errs k\<close> otherwise, where \<open>k\<close> is the number of the
  request.  When this schedules a retry the timer fires and the same happens again.
  \<open>now k\<close> is the time at which request \<open>k\<close> would start.  The recursion ends because
  each scheduled retry increases \<^verbatim>\<open>retryCountRef\<close>, which does not exceed
  \<^verbatim>\<open>retry\<close>.
\<close>

function failing_call ::
  "'a UseAxiosOptions \<Rightarrow> (nat \<Rightarrow> int) \<Rightarrow> (nat \<Rightarrow> js_error) \<Rightarrow> 'a retry_state \<Rightarrow> 'a retry_state" where
  "failing_call opts now errs s =
     (let k = requests s;
          s1 = retry_fetchData opts (now k) s
      in case take_request k s1 of
           None \<Rightarrow> s1
         | Some (q, s2) \<Rightarrow>
             (let out = (if signal q \<in> aborted s2 then Rejected CanceledError
                         else Rejected (errs k));
                  s3 = retry_settle opts (now k) out s2
              in if timers s2 < timers s3
                 then failing_call opts now errs (s3\<lparr>timers := timers s3 - 1\<rparr>)
                 else s3))"
  by pat_completeness auto
termination
proof (relation "measure (\<lambda>(opts, now, errs, s). retry opts - retryCountRef s)")
  show "wf (measure (\<lambda>(opts, now, errs, s). retry opts - retryCountRef s))" by simp
next
  fix opts :: "'a UseAxiosOptions" and now errs and s :: "'a retry_state"
    and k s1 x q s2 and out :: "'a outcome" and s3
  assume k: "k = requests s" and s1: "s1 = retry_fetchData opts (now k) s"
    and t: "take_request k s1 = Some x" "(q, s2) = x"
    and s3: "s3 = retry_settle opts (now k) out s2"
    and lt: "timers s2 < timers s3"
  have c1: "retryCountRef s1 = retryCountRef s"
    by (simp add: s1 retry_fetchData_def retry_finally_def dispatch_def)
  from t have c2: "retryCountRef s2 = retryCountRef s1"
    by (auto simp: take_request_def split: option.splits)
  from lt have "retryCountRef s2 < retry opts \<and> retryCountRef s3 = Suc (retryCountRef s2)"
    by (auto simp: s3 retry_settle_def retry_finally_def Let_def split: if_splits outcome.splits)
  with c1 c2
  show "((opts, now, errs, s3\<lparr>timers := timers s3 - 1\<rparr>), (opts, now, errs, s))
          \<in> measure (\<lambda>(opts, now, errs, s). retry opts - retryCountRef s)"
    by (simp add: diff_less_mono2)
qed

declare failing_call.simps [simp del]


section \<open>useAxios with a shared cache store (unnamed/part_010)\<close>

text \<open>
  \<^verbatim>\<open>cacheStore\<close> is a module-level object shared by every instance of the hook; a call
  takes it with the state and returns it updated.  \<open>instance_isCancel\<close> is
  \<^verbatim>\<open>axiosInstance.isCancel\<close>: \<open>None\<close> when the instance has no such method, so that
  calling it throws a \<^verbatim>\<open>TypeError\<close>.
\<close>

record 'a UseAxiosProps =
  props10_config :: config
  props10_immediate :: bool
  props10_onSuccess :: bool
  props10_onError :: bool
  cacheKey :: "string option"
  cacheDuration :: int
  instance_isCancel :: "(js_error \<Rightarrow> bool) option"

record 'a store_state = "('a, js_error) hook_state" +
  abortControllerRef10 :: "nat option"
  cacheStore :: "string \<rightharpoonup> ('a \<times> int)"
  calls10 :: "('a, js_error) callback list"

definition useAxios_store :: "(string \<rightharpoonup> ('a \<times> int)) \<Rightarrow> 'a store_state" where
  "useAxios_store store =
     \<lparr>data = None, loading = False, error = None,
      pending = [], aborted = {}, controllers = 0, requests = 0, mounted = True,
      abortControllerRef10 = None, cacheStore = store, calls10 = []\<rparr>"

definition TypeError :: js_error where
  "TypeError =
     \<lparr>is_Error = True, err_name = ''TypeError'',
      err_message = ''axiosInstance.isCancel is not a function'', cancel_mark = False\<rparr>"

definition isCacheValid :: "'a UseAxiosProps \<Rightarrow> int \<Rightarrow> 'a store_state \<Rightarrow> string \<Rightarrow> bool" where
  "isCacheValid props now s key =
     (case cacheStore s key of
        None \<Rightarrow> False
      | Some (d, timestamp) \<Rightarrow> now - timestamp < cacheDuration props)"

text \<open>\<^verbatim>\<open>cacheKey && ...\<close>: an absent key and the empty string are both false.\<close>

definition key_given :: "'a UseAxiosProps \<Rightarrow> bool" where
  "key_given props \<longleftrightarrow> (case cacheKey props of None \<Rightarrow> False | Some key \<Rightarrow> key \<noteq> [])"

text \<open>
  \<^verbatim>\<open>execute\<close> up to its \<^verbatim>\<open>await\<close>, or to its end, \<^verbatim>\<open>finally\<close> included, when the
  cache answers.
\<close>

definition execute :: "'a UseAxiosProps \<Rightarrow> int \<Rightarrow> config option \<Rightarrow> 'a store_state \<Rightarrow> 'a store_state" where
  "execute props now executionConfig s =
     (let s1 = s\<lparr>loading := True\<rparr>;
          s2 = s1\<lparr>error := None\<rparr>
      in if key_given props \<and> isCacheValid props now s2 (the (cacheKey props))
         then (let cached = map_option fst (cacheStore s2 (the (cacheKey props)));
                   s3 = s2\<lparr>data := cached\<rparr>;
                   s4 = (case cached of
                           Some d \<Rightarrow> if props10_onSuccess props
                                     then s3\<lparr>calls10 := calls10 s3 @ [OnSuccess d]\<rparr> else s3
                         | None \<Rightarrow> s3)
               in s4\<lparr>loading := False\<rparr>)
         else (let c = controllers s2;
                   s3 = s2\<lparr>controllers := Suc c, abortControllerRef10 := Some c\<rparr>;
                   mergedConfig = props10_config props ++
                     (case executionConfig of Some ec \<Rightarrow> ec | None \<Rightarrow> Map.empty)
               in dispatch c mergedConfig s3))"

text \<open>\<^verbatim>\<open>execute\<close> from its \<^verbatim>\<open>await\<close> on, and how its promise settles.\<close>

definition execute_settle ::
  "'a UseAxiosProps \<Rightarrow> int \<Rightarrow> 'a outcome \<Rightarrow> 'a store_state \<Rightarrow> 'a store_state \<times> unit outcome" where
  "execute_settle props now out s =
     (case out of
        Fulfilled response_data \<Rightarrow>
          (let s1 = s\<lparr>data := Some response_data\<rparr>;
               s2 = (if props10_onSuccess props
                     then s1\<lparr>calls10 := calls10 s1 @ [OnSuccess response_data]\<rparr> else s1);
               s3 = (if key_given props
                     then s2\<lparr>cacheStore :=
                            (cacheStore s2)(the (cacheKey props) \<mapsto> (response_data, now))\<rparr>
                     else s2)
           in (s3\<lparr>loading := False\<rparr>, Fulfilled ()))
      | Rejected err \<Rightarrow>
          (case instance_isCancel props of
             None \<Rightarrow> (s\<lparr>loading := False\<rparr>, Rejected TypeError)
           | Some is_cancel \<Rightarrow>
               if \<not> is_cancel err
               then (let s1 = s\<lparr>error := Some err\<rparr>;
                         s2 = (if props10_onError props
                               then s1\<lparr>calls10 := calls10 s1 @ [OnError err]\<rparr> else s1)
                     in (s2\<lparr>loading := False\<rparr>, Fulfilled ()))
               else (s\<lparr>loading := False\<rparr>, Fulfilled ())))"


section \<open>useAxios with pagination, cache and retry (unnamed/part_000)\<close>

text \<open>
  The hook is modelled for callers that pass no \<^verbatim>\<open>interceptors\<close>.  \<open>truthy0\<close> says
  which response data JavaScript takes for true, \<open>as_items\<close> reads response data as the
  array of items it is used as, and \<open>JSON_stringify\<close> is \<^verbatim>\<open>JSON.stringify\<close> on
  configurations.  \<^verbatim>\<open>globalConfig\<close> is a module-level variable and is kept in the state.
\<close>

record ('a, 'i) UseAxiosOptions0 =
  manual0 :: bool
  cache0 :: bool
  retry0 :: nat
  onSuccess0 :: bool
  onError0 :: bool
  truthy0 :: "'a \<Rightarrow> bool"
  as_items :: "'a \<Rightarrow> 'i list"
  JSON_stringify :: "config \<Rightarrow> string"

record 'i PaginationState =
  page :: nat
  pageSize :: nat
  hasMore :: bool
  total :: nat
  items :: "'i list"

record ('a, 'i) paged_state = "('a, js_error) hook_state" +
  pagination :: "'i PaginationState"
  cacheData :: "string \<rightharpoonup> 'a"
  cancelTokenSource :: "nat option"
  retryCount :: nat
  globalConfig :: config
  calls0 :: "('a, js_error) callback list"

definition useAxios_paged :: "('a, 'i) UseAxiosOptions0 \<Rightarrow> config \<Rightarrow> ('a, 'i) paged_state" where
  "useAxios_paged opts global =
     \<lparr>data = None, loading = \<not> manual0 opts, error = None,
      pending = [], aborted = {}, controllers = 0, requests = 0, mounted = True,
      pagination = \<lparr>page = 1, pageSize = 10, hasMore = True, total = 0, items = []\<rparr>,
      cacheData = Map.empty, cancelTokenSource = None, retryCount = 0,
      globalConfig = global, calls0 = []\<rparr>"

text \<open>\<^verbatim>\<open>fetchData(isLoadMore)\<close> up to its \<^verbatim>\<open>await\<close>, or to its end when the cache answers.\<close>

definition paged_fetchData ::
  "('a, 'i) UseAxiosOptions0 \<Rightarrow> config \<Rightarrow> bool \<Rightarrow> ('a, 'i) paged_state \<Rightarrow> ('a, 'i) paged_state" where
  "paged_fetchData opts config isLoadMore s =
     (let cacheKey = JSON_stringify opts config
      in if cache0 opts \<and>
            (case cacheData s cacheKey of Some d \<Rightarrow> truthy0 opts d | None \<Rightarrow> False) \<and>
            \<not> isLoadMore
         then s\<lparr>data := cacheData s cacheKey, loading := False, error := None\<rparr>
         else (let s1 = (case cancelTokenSource s of Some c \<Rightarrow> abort c s | None \<Rightarrow> s);
                   c = controllers s1;
                   s2 = s1\<lparr>controllers := Suc c, cancelTokenSource := Some c\<rparr>;
                   s3 = s2\<lparr>loading := True, error := None\<rparr>;
                   mergedConfig = globalConfig s3 ++ config
               in dispatch c mergedConfig s3))"

text \<open>
  \<^verbatim>\<open>fetchData(isLoadMore)\<close> from its \<^verbatim>\<open>await\<close> on.  A retry is a direct call of
  \<^verbatim>\<open>fetchData\<close>, which runs up to its own \<^verbatim>\<open>await\<close> at once.
\<close>

definition paged_settle ::
  "('a, 'i) UseAxiosOptions0 \<Rightarrow> config \<Rightarrow> bool \<Rightarrow> 'a outcome \<Rightarrow> ('a, 'i) paged_state
     \<Rightarrow> ('a, 'i) paged_state" where
  "paged_settle opts config isLoadMore out s =
     (case out of
        Fulfilled response_data \<Rightarrow>
          (let cacheKey = JSON_stringify opts config;
               s1 = (if cache0 opts \<and> \<not> isLoadMore
                     then s\<lparr>cacheData := (cacheData s)(cacheKey \<mapsto> response_data)\<rparr> else s);
               prev = pagination s1;
               s2 = (if isLoadMore
                     then s1\<lparr>pagination := prev\<lparr>items := items prev @ as_items opts response_data,
                                page := page prev + 1,
                                hasMore := (length (as_items opts response_data) > 0)\<rparr>\<rparr>
                     else s1\<lparr>pagination := prev\<lparr>items := as_items opts response_data,
                                page := 1, hasMore := True\<rparr>\<rparr>);
               s3 = s2\<lparr>data := Some response_data, loading := False, error := None\<rparr>
           in if onSuccess0 opts then s3\<lparr>calls0 := calls0 s3 @ [OnSuccess response_data]\<rparr>
              else s3)
      | Rejected err \<Rightarrow>
          if isCancel err then s
          else if retryCount s < retry0 opts
          then paged_fetchData opts config isLoadMore (s\<lparr>retryCount := retryCount s + 1\<rparr>)
          else (let s1 = s\<lparr>data := None, loading := False, error := Some err\<rparr>
                in if onError0 opts then s1\<lparr>calls0 := calls0 s1 @ [OnError err]\<rparr> else s1))"

section \<open>Invariants of the request hooks\<close>





text \<open>
  Calls that do not overlap: \<open>rq_calm\<close> and \<open>ua_calm\<close> say that an event starts no
  request (and resets nothing) while another request is outstanding; a sequence of events
  is non-overlapping when this holds at each of its steps.
\<close>

definition rq_calm :: "'a event \<Rightarrow> 'a useRequest_state \<Rightarrow> bool" where
  "rq_calm ev s =
     (case ev of
        Run _ \<Rightarrow> pending s = []
      | Refresh \<Rightarrow> pending s = []
      | Reset \<Rightarrow> pending s = []
      | _ \<Rightarrow> True)"

fun rq_nonoverlapping ::
  "'a RequestOptions \<Rightarrow> config \<Rightarrow> 'a event list \<Rightarrow> 'a useRequest_state \<Rightarrow> bool" where
  "rq_nonoverlapping opts config [] s = True"
| "rq_nonoverlapping opts config (ev # evs) s =
     (rq_calm ev s \<and>
      (case rq_step opts config ev s of
         None \<Rightarrow> True
       | Some s1 \<Rightarrow> rq_nonoverlapping opts config evs s1))"

definition ua_calm :: "'a event \<Rightarrow> 'a useAxios_state \<Rightarrow> bool" where
  "ua_calm ev s =
     (case ev of
        Refetch _ \<Rightarrow> pending s = []
      | Render config immediate \<Rightarrow>
          (if deps_changed config immediate s \<and> immediate then pending s = [] else True)
      | _ \<Rightarrow> True)"

fun ua_nonoverlapping :: "'a event list \<Rightarrow> 'a useAxios_state \<Rightarrow> bool" where
  "ua_nonoverlapping [] s = True"
| "ua_nonoverlapping (ev # evs) s =
     (ua_calm ev s \<and>
      (case ua_step ev s of
         None \<Rightarrow> True
       | Some s1 \<Rightarrow> ua_nonoverlapping evs s1))"

text \<open>
  What non-overlapping use preserves: \<^verbatim>\<open>loading\<close> is true exactly when a request is
  outstanding, and at most one is.  For \<^verbatim>\<open>useAxios\<close> this is claimed only as long as
  controller 0 is not aborted.
\<close>

definition rq_busy :: "'a useRequest_state \<Rightarrow> bool" where
  "rq_busy s \<longleftrightarrow> (loading s \<longleftrightarrow> pending s \<noteq> []) \<and> length (pending s) \<le> 1"

definition ua_busy :: "'a useAxios_state \<Rightarrow> bool" where
  "ua_busy s \<longleftrightarrow>
     (0 \<notin> aborted s \<longrightarrow>
        (loading s \<longleftrightarrow> pending s \<noteq> []) \<and> length (pending s) \<le> 1 \<and>
        (\<forall>q \<in> set (pending s). signal q = 0))"

text \<open>
  One failed attempt of the hook with retry: the request is dispatched, taken from the
  outstanding ones and rejected with \<open>err\<close>.
\<close>

definition next_attempt :: "'a UseAxiosOptions \<Rightarrow> js_error \<Rightarrow> 'a retry_state \<Rightarrow> 'a retry_state" where
  "next_attempt opts err s =
     (retry_settle opts 0 (Rejected err)
        ((dispatch 0 (request_config opts) s)
           \<lparr>pending := filter (\<lambda>q. rid q \<noteq> requests s) (pending s)\<rparr>))"

section \<open>Example inputs\<close>

text \<open>
  Options, configurations and errors on which the hooks are run below: a manually
  triggered \<^verbatim>\<open>useRequest\<close> with both callbacks, the same with the default
  \<^verbatim>\<open>manual = false\<close>, a failed transport, the options of the example of part_007
  (\<^verbatim>\<open>cache: true, retry: 3, retryDelay: 1000\<close>) with and without an expiry time, and
  properties with a cache key for the hook of part_010.
\<close>

definition example_options :: "nat RequestOptions" where
  "example_options = \<lparr>manual = True, onSuccess = True, onError = True, initialData = None\<rparr>"

definition default_options :: "nat RequestOptions" where
  "default_options = \<lparr>manual = False, onSuccess = False, onError = False, initialData = None\<rparr>"

definition network_error :: js_error where
  "network_error = new_Error ''Network Error''"

definition user_config :: config where
  "user_config = [''url'' \<mapsto> ''/api/user'', ''method'' \<mapsto> ''GET'']"

definition detail_config :: config where
  "detail_config = [''url'' \<mapsto> ''/api/user/detail'', ''method'' \<mapsto> ''GET'']"

definition example_retry_options :: "int option \<Rightarrow> nat UseAxiosOptions" where
  "example_retry_options expiry =
     \<lparr>url = ''/posts/1'', http_method = ''get'', body = None, params = None, headers = None,
      cache = True, cacheExpiry = expiry, retry = 3, retryDelay = 1000,
      truthy = (\<lambda>n. n \<noteq> 0)\<rparr>"

text \<open>The same options after the caller changed the URL, which makes the effect run again.\<close>

definition changed_retry_options :: "nat UseAxiosOptions" where
  "changed_retry_options = (example_retry_options None)\<lparr>url := ''/posts/2''\<rparr>"

definition example_props :: "nat UseAxiosProps" where
  "example_props =
     \<lparr>props10_config = user_config, props10_immediate = False, props10_onSuccess = True,
      props10_onError = True, cacheKey = Some ''users'', cacheDuration = 30000,
      instance_isCancel = Some isCancel\<rparr>"

definition example_paged_options :: "(nat, nat) UseAxiosOptions0" where
  "example_paged_options =
     \<lparr>manual0 = False, cache0 = False, retry0 = 0, onSuccess0 = False, onError0 = True,
      truthy0 = (\<lambda>n. n \<noteq> 0), as_items = (\<lambda>n. [n]), JSON_stringify = (\<lambda>c. ''config'')\<rparr>"

section \<open>Properties of the collections\<close>

lemma new_Set_snoc: "new_Set (xs @ [x]) = set_add (new_Set xs) x"
  by (simp add: new_Set_def)

lemma set_new_Set: "set (new_Set xs) = set xs"
  by (induction xs rule: rev_induct) (auto simp: new_Set_snoc new_Set_def)

lemma distinct_new_Set: "distinct (new_Set xs)"
  by (induction xs rule: rev_induct) (auto simp: new_Set_snoc new_Set_def)

lemma first_index_less: "x \<in> set xs \<Longrightarrow> first_index xs x < length xs"
  unfolding first_index_def
  by (induction xs) auto

lemma first_index_append_mem: "x \<in> set xs \<Longrightarrow> first_index (xs @ ys) x = first_index xs x"
  unfolding first_index_def
  by (induction xs) auto

lemma first_index_append_new: "x \<notin> set xs \<Longrightarrow> first_index (xs @ [x]) x = length xs"
  unfolding first_index_def
  by (induction xs) auto

lemma sorted_new_Set:
  "sorted_wrt (\<lambda>u v. first_index xs u < first_index xs v) (new_Set xs)"
proof (induction xs rule: rev_induct)
  case Nil
  show ?case by (simp add: new_Set_def)
next
  case (snoc x xs)
  let ?R = "\<lambda>zs u v. first_index zs u < first_index zs v"
  have old: "sorted_wrt (?R (xs @ [x])) (new_Set xs)"
  proof (rule sorted_wrt_mono_rel [OF _ snoc.IH])
    fix u v
    assume "u \<in> set (new_Set xs)" "v \<in> set (new_Set xs)" "?R xs u v"
    then show "?R (xs @ [x]) u v"
      by (simp add: set_new_Set first_index_append_mem)
  qed
  show ?case
  proof (cases "x \<in> set xs")
    case True
    then show ?thesis using old by (simp add: new_Set_snoc set_new_Set)
  next
    case False
    have "\<forall>u \<in> set (new_Set xs). ?R (xs @ [x]) u x"
      using False by (simp add: set_new_Set first_index_append_mem
          first_index_append_new first_index_less)
    then show ?thesis
      using old False by (simp add: new_Set_snoc set_new_Set sorted_wrt_append)
  qed
qed

lemma new_Set_first_occurrence_order: "first_occurrence_order xs (new_Set xs)"
  by (simp add: first_occurrence_order_def distinct_new_Set set_new_Set sorted_new_Set)

lemma find_first_match:
  "List.find P xs = Some x \<longleftrightarrow> (\<exists>k. is_first_match P xs k \<and> x = xs ! k)"
  by (auto simp: find_Some_iff is_first_match_def)

lemma length_generateC: "length (generateC a b) = length a"
  by (simp add: generateC_def)

lemma generateC_nth:
  assumes "i < length a"
  shows "generateC a b ! i =
    (case options (a ! i) of
       Some opts \<Rightarrow> \<lparr>label = headerName (a ! i),
                    listOptions = map (\<lambda>opt. \<lparr>opt_label = opt_label opt\<rparr>) opts\<rparr>
     | None \<Rightarrow> \<lparr>label = headerName (a ! i),
                listOptions = map (\<lambda>value. \<lparr>opt_label = value\<rparr>)
                  (new_Set (map (\<lambda>entry. entry (field (a ! i))) b))\<rparr>)"
  using assms by (simp add: generateC_def Let_def split: option.split)


section \<open>Properties of the request hooks\<close>

lemma take_request_fields:
  "take_request r s = Some (q, s1) \<Longrightarrow>
     data s1 = data s \<and> loading s1 = loading s \<and> error s1 = error s \<and> aborted s1 = aborted s \<and>
     mounted s1 = mounted s \<and> controllers s1 = controllers s \<and> requests s1 = requests s \<and>
     pending s1 = filter (\<lambda>q. rid q \<noteq> r) (pending s) \<and> q \<in> set (pending s) \<and> rid q = r"
  by (auto simp: take_request_def find_Some_iff split: option.splits)

lemma take_request_more:
  "take_request r s = Some (q, s1) \<Longrightarrow> hook_state.more s1 = hook_state.more s"
  by (auto simp: take_request_def split: option.splits)

lemma take_request_rq:
  "take_request r s = Some (q, s1) \<Longrightarrow>
     abortControllerRef s1 = abortControllerRef s \<and> calls s1 = calls s \<and> returned s1 = returned s"
  by (auto simp: take_request_def split: option.splits)



lemma run_settle_cancel:
  "isCancel err \<Longrightarrow> run_settle opts (Rejected err) s = (s\<lparr>loading := False\<rparr>, Rejected err)"
  by (simp add: run_settle_def)

lemma isCancel_CanceledError: "isCancel CanceledError"
  by (simp add: isCancel_def CanceledError_def)

lemma run_settle_frame:
  "pending (fst (run_settle opts out s)) = pending s \<and>
   aborted (fst (run_settle opts out s)) = aborted s \<and>
   mounted (fst (run_settle opts out s)) = mounted s \<and>
   controllers (fst (run_settle opts out s)) = controllers s \<and>
   requests (fst (run_settle opts out s)) = requests s \<and>
   abortControllerRef (fst (run_settle opts out s)) = abortControllerRef s \<and>
   returned (fst (run_settle opts out s)) = returned s \<and>
   loading (fst (run_settle opts out s)) = False"
  by (simp add: run_settle_def Let_def split: outcome.split)

lemma run_start_fields:
  "data (run_start config rc s) = data s \<and>
   loading (run_start config rc s) = True \<and>
   error (run_start config rc s) = None \<and>
   mounted (run_start config rc s) = mounted s \<and>
   controllers (run_start config rc s) = Suc (controllers s) \<and>
   requests (run_start config rc s) = Suc (requests s) \<and>
   abortControllerRef (run_start config rc s) = Some (controllers s) \<and>
   aborted (run_start config rc s) =
     (case abortControllerRef s of Some c \<Rightarrow> insert c (aborted s) | None \<Rightarrow> aborted s) \<and>
   pending (run_start config rc s) =
     pending s @ [\<lparr>rid = requests s, signal = controllers s,
        req_config = config ++ (case rc of Some rc \<Rightarrow> rc | None \<Rightarrow> Map.empty)\<rparr>]"
  by (simp add: run_start_def dispatch_def abort_def Let_def split: option.split)

lemma rq_step_Settle:
  "rq_step opts config (Settle r out) s = Some s' \<longleftrightarrow>
     (\<exists>q s1. take_request r s = Some (q, s1) \<and> client_outcome (signal q \<in> aborted s) out \<and>
        s' = (fst (run_settle opts out s1))\<lparr>returned := returned s1 @ [(r, snd (run_settle opts out s1))]\<rparr>)"
  by (auto simp: rq_step_def Let_def case_prod_beta run_settle_frame take_request_fields split: option.splits)

lemma rq_step_cases:
  assumes "rq_step opts config ev s = Some s'"
  obtains (run) rc where "ev = Run rc \<or> (ev = Refresh \<and> rc = None)" "mounted s" "s' = run_start config rc s"
  | (reset) "ev = Reset" "mounted s" "s' = reset opts s"
  | (settle) r out q s1 where "ev = Settle r out" "take_request r s = Some (q, s1)"
       "client_outcome (signal q \<in> aborted s) out"
       "s' = (fst (run_settle opts out s1))\<lparr>returned := returned s1 @ [(r, snd (run_settle opts out s1))]\<rparr>"
  | (unmount) "ev = Unmount" "mounted s" "s' = (cleanup s)\<lparr>mounted := False\<rparr>"
proof (cases ev)
  case (Run rc) with assms that(1) show ?thesis by (simp add: rq_step_def split: if_splits)
next
  case Refresh with assms that(1) show ?thesis by (simp add: rq_step_def split: if_splits)
next
  case Reset with assms that(2) show ?thesis by (simp add: rq_step_def split: if_splits)
next
  case (Settle r out) with assms that(3) show ?thesis by (auto simp: rq_step_Settle)
next
  case Unmount with assms that(4) show ?thesis by (simp add: rq_step_def split: if_splits)
next
  case (Refetch x) with assms show ?thesis by (simp add: rq_step_def)
next
  case Cancel with assms show ?thesis by (simp add: rq_step_def)
next
  case (Render x y) with assms show ?thesis by (simp add: rq_step_def)
qed


lemma reset_fields:
  "pending (reset opts s) = pending s \<and> aborted (reset opts s) = aborted s \<and>
   mounted (reset opts s) = mounted s \<and> controllers (reset opts s) = controllers s \<and>
   requests (reset opts s) = requests s \<and> abortControllerRef (reset opts s) = abortControllerRef s \<and>
   loading (reset opts s) = False"
  by (simp add: reset_def)

lemma cleanup_fields:
  "pending (cleanup s) = pending s \<and> data (cleanup s) = data s \<and> error (cleanup s) = error s \<and>
   loading (cleanup s) = loading s \<and> controllers (cleanup s) = controllers s \<and>
   requests (cleanup s) = requests s \<and> abortControllerRef (cleanup s) = abortControllerRef s \<and>
   aborted (cleanup s) =
     (case abortControllerRef s of Some c \<Rightarrow> insert c (aborted s) | None \<Rightarrow> aborted s)"
  by (simp add: cleanup_def abort_def split: option.split)










lemma fetchData_fields:
  "data (fetchData c s) = data s \<and> loading (fetchData c s) = True \<and> error (fetchData c s) = error s \<and>
   mounted (fetchData c s) = mounted s \<and> controllers (fetchData c s) = controllers s \<and>
   requests (fetchData c s) = Suc (requests s) \<and> aborted (fetchData c s) = aborted s \<and>
   props_config (fetchData c s) = props_config s \<and> props_immediate (fetchData c s) = props_immediate s \<and>
   effect_controller (fetchData c s) = effect_controller s \<and>
   pending (fetchData c s) = pending s @ [\<lparr>rid = requests s, signal = 0, req_config = c\<rparr>]"
  by (simp add: fetchData_def dispatch_def Let_def)

lemma cancel_fields:
  "data (cancel c s) = data s \<and> loading (cancel c s) = loading s \<and> error (cancel c s) = error s \<and>
   mounted (cancel c s) = mounted s \<and> controllers (cancel c s) = controllers s \<and>
   requests (cancel c s) = requests s \<and> aborted (cancel c s) = insert c (aborted s) \<and>
   props_config (cancel c s) = props_config s \<and> props_immediate (cancel c s) = props_immediate s \<and>
   effect_controller (cancel c s) = effect_controller s \<and> pending (cancel c s) = pending s"
  by (simp add: cancel_def abort_def)

lemma fetchData_settle_frame:
  "pending (fst (fetchData_settle out s)) = pending s \<and>
   aborted (fst (fetchData_settle out s)) = aborted s \<and>
   mounted (fst (fetchData_settle out s)) = mounted s \<and>
   controllers (fst (fetchData_settle out s)) = controllers s \<and>
   requests (fst (fetchData_settle out s)) = requests s \<and>
   props_config (fst (fetchData_settle out s)) = props_config s \<and>
   props_immediate (fst (fetchData_settle out s)) = props_immediate s \<and>
   effect_controller (fst (fetchData_settle out s)) = effect_controller s \<and>
   snd (fetchData_settle out s) = Fulfilled ()"
  by (simp add: fetchData_settle_def split: outcome.split)

lemma fetchData_settle_cancel: "fetchData_settle (Rejected CanceledError) s = (s, Fulfilled ())"
  by (simp add: fetchData_settle_def CanceledError_def)

lemma fetchData_settle_other:
  "client_outcome False out \<Longrightarrow> loading (fst (fetchData_settle out s)) = False"
  by (auto simp: fetchData_settle_def client_outcome_def split: outcome.splits)

lemma render_fields:
  "data (render c i s) = data s \<and> error (render c i s) = error s \<and>
   mounted (render c i s) = mounted s \<and> controllers (render c i s) = Suc (controllers s) \<and>
   props_config (render c i s) = c \<and> props_immediate (render c i s) = i"
  by (simp add: render_def Let_def fetchData_fields cancel_fields)

lemma render_unchanged:
  "\<not> deps_changed c i s \<Longrightarrow>
   loading (render c i s) = loading s \<and> pending (render c i s) = pending s \<and>
   aborted (render c i s) = aborted s \<and> effect_controller (render c i s) = effect_controller s"
  by (simp add: render_def Let_def)

lemma render_changed:
  "deps_changed c i s \<Longrightarrow>
   aborted (render c i s) = insert (effect_controller s) (aborted s) \<and>
   effect_controller (render c i s) = controllers s \<and>
   loading (render c i s) = (if i then True else loading s) \<and>
   pending (render c i s) =
     (if i then pending s @ [\<lparr>rid = requests s, signal = 0, req_config = c\<rparr>] else pending s)"
  by (simp add: render_def Let_def fetchData_fields cancel_fields)

lemma ua_step_Settle:
  "ua_step (Settle r out) s = Some s' \<longleftrightarrow>
     (\<exists>q s1. take_request r s = Some (q, s1) \<and> client_outcome (signal q \<in> aborted s) out \<and>
        s' = fst (fetchData_settle out s1))"
  by (auto simp: ua_step_def take_request_fields split: option.splits)

lemma ua_step_cases:
  assumes "ua_step ev s = Some s'"
  obtains (refetch) nc where "ev = Refetch nc" "mounted s" "s' = refetch nc s"
  | (cancel) "ev = Cancel" "mounted s" "s' = cancel (controllers s - 1) s"
  | (render) c i where "ev = Render c i" "mounted s" "s' = render c i s"
  | (settle) r out q s1 where "ev = Settle r out" "take_request r s = Some (q, s1)"
       "client_outcome (signal q \<in> aborted s) out" "s' = fst (fetchData_settle out s1)"
  | (unmount) "ev = Unmount" "mounted s" "s' = (cancel (effect_controller s) s)\<lparr>mounted := False\<rparr>"
proof (cases ev)
  case (Refetch nc) with assms that(1) show ?thesis by (simp add: ua_step_def split: if_splits)
next
  case Cancel with assms that(2) show ?thesis by (simp add: ua_step_def split: if_splits)
next
  case (Render c i) with assms that(3) show ?thesis by (simp add: ua_step_def split: if_splits)
next
  case (Settle r out) with assms that(4) show ?thesis by (auto simp: ua_step_Settle)
next
  case Unmount with assms that(5) show ?thesis by (simp add: ua_step_def split: if_splits)
next
  case (Run x) with assms show ?thesis by (simp add: ua_step_def)
next
  case Refresh with assms show ?thesis by (simp add: ua_step_def)
next
  case Reset with assms show ?thesis by (simp add: ua_step_def)
qed







lemma filter_singleton_request:
  "length xs \<le> 1 \<Longrightarrow> q \<in> set xs \<Longrightarrow> rid q = r \<Longrightarrow> filter (\<lambda>q. rid q \<noteq> r) xs = []"
  by (cases xs) auto

lemma rq_busy_step:
  assumes "rq_busy s" and "rq_step opts config ev s = Some s'" and "rq_calm ev s"
  shows "rq_busy s'"
  using assms(2)
proof (cases rule: rq_step_cases)
  case (run rc)
  then show ?thesis using assms(1,3) by (auto simp: rq_busy_def rq_calm_def run_start_fields)
next
  case reset
  then show ?thesis using assms(1,3) by (auto simp: rq_busy_def rq_calm_def reset_fields)
next
  case (settle r out q s1)
  from take_request_fields [OF settle(2)] assms(1)
  have "pending s1 = []"
    by (auto simp: rq_busy_def intro: filter_singleton_request)
  then show ?thesis using settle(4) by (simp add: rq_busy_def run_settle_frame)
next
  case unmount
  then show ?thesis using assms(1) by (auto simp: rq_busy_def cleanup_fields)
qed

lemma rq_busy_exec:
  "rq_busy s \<Longrightarrow> rq_exec opts config evs s = Some s' \<Longrightarrow> rq_nonoverlapping opts config evs s
     \<Longrightarrow> rq_busy s'"
proof (induction evs arbitrary: s)
  case Nil
  then show ?case by simp
next
  case (Cons ev evs)
  from Cons.prems(2) obtain s1 where 1: "rq_step opts config ev s = Some s1"
    and 2: "rq_exec opts config evs s1 = Some s'"
    by (auto split: option.splits)
  from Cons.prems(3) 1 have 3: "rq_calm ev s" and 4: "rq_nonoverlapping opts config evs s1"
    by auto
  from Cons.IH [OF rq_busy_step [OF Cons.prems(1) 1 3] 2 4] show ?case .
qed

lemma useRequest_loading:
  assumes "manual opts" and "rq_exec opts config evs (useRequest opts) = Some s"
    and "rq_nonoverlapping opts config evs (useRequest opts)"
  shows "loading s \<longleftrightarrow> pending s \<noteq> []"
proof -
  have "rq_busy (useRequest opts)" using assms(1) by (simp add: rq_busy_def useRequest_def)
  from rq_busy_exec [OF this assms(2,3)] show ?thesis by (simp add: rq_busy_def)
qed

lemma ua_aborted_step:
  assumes "ua_step ev s = Some s'"
  shows "aborted s \<subseteq> aborted s'"
  using assms
proof (cases rule: ua_step_cases)
  case (refetch nc)
  then show ?thesis by (simp add: refetch_def fetchData_fields)
next
  case cancel
  then show ?thesis by (auto simp: cancel_fields)
next
  case (render c i)
  then show ?thesis
    using render_changed [of c i s] render_unchanged [of c i s] by (cases "deps_changed c i s") auto
next
  case (settle r out q s1)
  then show ?thesis using take_request_fields [OF settle(2)] by (simp add: fetchData_settle_frame)
next
  case unmount
  then show ?thesis by (auto simp: cancel_fields)
qed

lemma ua_busy_step:
  assumes "ua_busy s" and "ua_step ev s = Some s'" and "ua_calm ev s"
  shows "ua_busy s'"
proof -
  { assume n: "0 \<notin> aborted s'"
    with ua_aborted_step [OF assms(2)] have n0: "0 \<notin> aborted s" by blast
    with assms(1) have b: "loading s \<longleftrightarrow> pending s \<noteq> []" "length (pending s) \<le> 1"
      "\<forall>q \<in> set (pending s). signal q = 0"
      by (auto simp: ua_busy_def)
    from assms(2) have "(loading s' \<longleftrightarrow> pending s' \<noteq> []) \<and> length (pending s') \<le> 1 \<and>
        (\<forall>q \<in> set (pending s'). signal q = 0)"
    proof (cases rule: ua_step_cases)
      case (refetch nc)
      then show ?thesis using b assms(3) by (auto simp: ua_calm_def refetch_def fetchData_fields)
    next
      case cancel
      then show ?thesis using b by (auto simp: cancel_fields)
    next
      case (render c i)
      show ?thesis
      proof (cases "deps_changed c i s")
        case True
        from render_changed [OF True] b assms(3) True show ?thesis
          by (auto simp: render(1,3) ua_calm_def split: if_splits)
      next
        case False
        from render_unchanged [OF False] b show ?thesis by (auto simp: render(3))
      qed
    next
      case (settle r out q s1)
      from take_request_fields [OF settle(2)] b
      have p: "pending s1 = []" and q: "signal q = 0"
        by (auto intro: filter_singleton_request)
      from settle(3) q n0 have "client_outcome False out" by simp
      from fetchData_settle_other [OF this] p show ?thesis
        by (simp add: settle(4) fetchData_settle_frame)
    next
      case unmount
      then show ?thesis using b by (auto simp: cancel_fields)
    qed }
  then show ?thesis by (simp add: ua_busy_def)
qed

lemma ua_busy_exec:
  "ua_busy s \<Longrightarrow> ua_exec evs s = Some s' \<Longrightarrow> ua_nonoverlapping evs s \<Longrightarrow> ua_busy s'"
proof (induction evs arbitrary: s)
  case Nil
  then show ?case by simp
next
  case (Cons ev evs)
  from Cons.prems(2) obtain s1 where 1: "ua_step ev s = Some s1"
    and 2: "ua_exec evs s1 = Some s'"
    by (auto split: option.splits)
  from Cons.prems(3) 1 have 3: "ua_calm ev s" and 4: "ua_nonoverlapping evs s1"
    by auto
  from Cons.IH [OF ua_busy_step [OF Cons.prems(1) 1 3] 2 4] show ?case .
qed

lemma useAxios_loading:
  assumes "ua_exec evs (useAxios config immediate) = Some s"
    and "ua_nonoverlapping evs (useAxios config immediate)"
    and "0 \<notin> aborted s"
  shows "loading s \<longleftrightarrow> pending s \<noteq> []"
proof -
  have "ua_busy (useAxios config immediate)"
    by (simp add: ua_busy_def useAxios_def fetchData_def dispatch_def Let_def)
  from ua_busy_exec [OF this assms(1,2)] assms(3) show ?thesis by (simp add: ua_busy_def)
qed

lemma client_outcome_other:
  "client_outcome b (Rejected err) \<Longrightarrow> err \<noteq> CanceledError \<Longrightarrow>
     \<not> b \<and> \<not> isCancel err \<and> \<not> (is_Error err \<and> err_name err = ''CanceledError'')"
  by (auto simp: client_outcome_def isCancel_def split: if_splits)

lemma rq_settle_failure:
  assumes "rq_step opts config (Settle r out) s = Some s'" and out: "out = Rejected err"
    and "err \<noteq> CanceledError"
  shows "error s' = Some (if is_Error err then err else new_Error ''Request failed'') \<and>
     data s' = data s \<and>
     calls s' = calls s @
       (if onError opts then [OnError (if is_Error err then err else new_Error ''Request failed'')]
        else []) \<and>
     returned s' = returned s @
       [(r, Rejected (if is_Error err then err else new_Error ''Request failed''))]"
proof -
  from assms(1) obtain q s1 where t: "take_request r s = Some (q, s1)"
    and c: "client_outcome (signal q \<in> aborted s) out"
    and s': "s' = (fst (run_settle opts out s1))\<lparr>returned := returned s1 @ [(r, snd (run_settle opts out s1))]\<rparr>"
    by (auto simp: rq_step_Settle)
  from client_outcome_other [OF c [unfolded out] assms(3)] have n: "\<not> isCancel err" by simp
  show ?thesis
    using n take_request_fields [OF t] take_request_rq [OF t]
    by (simp add: s' out run_settle_def Let_def)
qed

lemma ua_settle_failure:
  assumes "ua_step (Settle r out) s = Some s'" and out: "out = Rejected err"
    and "err \<noteq> CanceledError"
  shows "error s' = Some err \<and> data s' = None \<and> loading s' = False"
proof -
  from assms(1) obtain q s1 where t: "take_request r s = Some (q, s1)"
    and c: "client_outcome (signal q \<in> aborted s) out"
    and s': "s' = fst (fetchData_settle out s1)"
    by (auto simp: ua_step_Settle)
  from client_outcome_other [OF c [unfolded out] assms(3)]
  have n: "\<not> (is_Error err \<and> err_name err = ''CanceledError'')" by simp
  show ?thesis using n by (auto simp add: s' out fetchData_settle_def)
qed

lemma paged_settle_failure:
  assumes "\<not> isCancel err" and "\<not> retryCount s < retry0 opts"
  shows "error (paged_settle opts config isLoadMore (Rejected err) s) = Some err \<and>
     data (paged_settle opts config isLoadMore (Rejected err) s) = None"
  using assms by (simp add: paged_settle_def Let_def)

lemma ua_settle_cancel:
  assumes "ua_step (Settle r (Rejected CanceledError)) s = Some s'"
  shows "data s' = data s \<and> error s' = error s \<and> loading s' = loading s"
proof -
  from assms(1) obtain q s1 where t: "take_request r s = Some (q, s1)"
    and s': "s' = fst (fetchData_settle (Rejected CanceledError) s1)"
    by (auto simp: ua_step_Settle)
  show ?thesis using take_request_fields [OF t] by (simp add: s' fetchData_settle_cancel)
qed

lemma rq_settle_cancel:
  assumes "rq_step opts config (Settle r (Rejected CanceledError)) s = Some s'"
  shows "data s' = data s \<and> error s' = error s"
proof -
  from assms(1) obtain q s1 where t: "take_request r s = Some (q, s1)"
    and s': "s' = (fst (run_settle opts (Rejected CanceledError) s1))\<lparr>returned := returned s1 @ [(r, snd (run_settle opts (Rejected CanceledError) s1))]\<rparr>"
    by (auto simp: rq_step_Settle)
  show ?thesis using take_request_fields [OF t]
    by (simp add: s' run_settle_cancel isCancel_CanceledError)
qed

lemma run_settle_success:
  "error (fst (run_settle opts (Fulfilled d) s)) = error s \<and>
   data (fst (run_settle opts (Fulfilled d) s)) = Some d"
  by (simp add: run_settle_def Let_def)

lemma rq_error_set:
  assumes "rq_step opts config ev s = Some s'" and "error s' \<noteq> error s" and "error s' \<noteq> None"
  shows "\<exists>r err. ev = Settle r (Rejected err) \<and> err \<noteq> CanceledError"
  using assms(1)
proof (cases rule: rq_step_cases)
  case (run rc)
  then show ?thesis using assms(3) by (simp add: run_start_fields)
next
  case reset
  then show ?thesis using assms(3) by (simp add: reset_def)
next
  case (settle r out q s1)
  show ?thesis
  proof (cases out)
    case (Fulfilled d)
    then show ?thesis using settle assms(2) take_request_fields [OF settle(2)]
      by (simp add: run_settle_success)
  next
    case (Rejected err)
    have "err \<noteq> CanceledError"
    proof
      assume "err = CanceledError"
      with assms(1) settle(1) Rejected rq_settle_cancel assms(2) show False by metis
    qed
    then show ?thesis using settle(1) Rejected by simp
  qed
next
  case unmount
  then show ?thesis using assms(2) by (simp add: cleanup_fields)
qed

lemma ua_error_set:
  assumes "ua_step ev s = Some s'" and "error s' \<noteq> error s" and "error s' \<noteq> None"
  shows "\<exists>r err. ev = Settle r (Rejected err) \<and> err \<noteq> CanceledError"
  using assms(1)
proof (cases rule: ua_step_cases)
  case (refetch nc)
  then show ?thesis using assms(2) by (simp add: refetch_def fetchData_fields)
next
  case cancel
  then show ?thesis using assms(2) by (simp add: cancel_fields)
next
  case (render c i)
  then show ?thesis using assms(2) by (simp add: render_fields)
next
  case (settle r out q s1)
  show ?thesis
  proof (cases out)
    case (Fulfilled d)
    then show ?thesis using settle assms(3) by (simp add: fetchData_settle_def)
  next
    case (Rejected err)
    have "err \<noteq> CanceledError"
    proof
      assume "err = CanceledError"
      with assms(1) settle(1) Rejected ua_settle_cancel assms(2) show False by metis
    qed
    then show ?thesis using settle(1) Rejected by simp
  qed
next
  case unmount
  then show ?thesis using assms(2) by (simp add: cancel_fields)
qed

lemma cache_hit_cong: "cacheRef s' = cacheRef s \<Longrightarrow> cache_hit opts now s' = cache_hit opts now s"
  by (simp add: cache_hit_def)

lemma take_dispatch:
  "take_request (requests s) (dispatch c cfg s) =
     Some (the (List.find (\<lambda>q. rid q = requests s) (pending (dispatch c cfg s))),
           (dispatch c cfg s)\<lparr>pending := filter (\<lambda>q. rid q \<noteq> requests s) (pending s)\<rparr>)"
proof -
  have "List.find (\<lambda>q. rid q = requests s) (pending (dispatch c cfg s)) \<noteq> None"
    by (auto simp: find_None_iff dispatch_def
        intro!: exI [of _ "\<lparr>rid = requests s, signal = c, req_config = cfg\<rparr>"])
  then show ?thesis
    by (auto simp: take_request_def dispatch_def split: option.splits)
qed

lemma retry_settle_failure:
  assumes "\<not> isCancel err"
  shows "retry_settle opts now (Rejected err) s =
     (if retryCountRef s < retry opts
      then retry_finally opts
             (s\<lparr>error := Some (if err_message err \<noteq> [] then err_message err
                                else ''Something went wrong''),
                retryCountRef := retryCountRef s + 1, timers := timers s + 1\<rparr>)
      else s\<lparr>error := Some (if err_message err \<noteq> [] then err_message err
                              else ''Something went wrong''),
              loading := False\<rparr>)"
  using assms by (simp add: retry_settle_def retry_finally_def Let_def)

lemma retry_settle_time:
  "retry_settle opts now (Rejected err) s = retry_settle opts 0 (Rejected err) s"
  by (simp add: retry_settle_def)

lemma take_dispatch_fresh:
  assumes "pending s = []"
  shows "take_request (requests s) (dispatch c cfg s) =
     Some (\<lparr>rid = requests s, signal = c, req_config = cfg\<rparr>,
           (dispatch c cfg s)\<lparr>pending := []\<rparr>)"
  using assms by (simp add: take_request_def dispatch_def)

lemma failing_call_step:
  assumes "\<not> cache_hit opts (now (requests s)) s" and "\<not> isCancel (errs (requests s))"
    and "pending s = []" and "0 \<notin> aborted s"
  shows "failing_call opts now errs s =
     (if retryCountRef s < retry opts
      then failing_call opts now errs
             ((next_attempt opts (errs (requests s)) s)
                \<lparr>timers := timers (next_attempt opts (errs (requests s)) s) - 1\<rparr>)
      else next_attempt opts (errs (requests s)) s)"
proof -
  define s2 where "s2 = (dispatch 0 (request_config opts) s)\<lparr>pending := []\<rparr>"
  define q where "q = \<lparr>rid = requests s, signal = 0, req_config = request_config opts\<rparr>"
  have tk: "take_request (requests s) (retry_fetchData opts (now (requests s)) s) = Some (q, s2)"
    using assms(1) take_dispatch_fresh [OF assms(3)]
    by (simp add: retry_fetchData_def s2_def q_def)
  have ab: "(signal q \<in> aborted s2) = False"
    using assms(4) by (simp add: s2_def q_def dispatch_def)
  have na: "retry_settle opts (now (requests s)) (Rejected (errs (requests s))) s2 =
      next_attempt opts (errs (requests s)) s"
    by (simp add: next_attempt_def s2_def assms(3) retry_settle_time [of opts "now (requests s)"])
  have t: "timers s2 = timers s" "retryCountRef s2 = retryCountRef s"
    by (simp_all add: s2_def dispatch_def)
  have lt: "(timers s2 < timers (next_attempt opts (errs (requests s)) s))
      = (retryCountRef s < retry opts)"
    using assms(2) t unfolding na [symmetric]
    by (simp add: retry_settle_failure retry_finally_def)
  show ?thesis
    apply (subst failing_call.simps)
    apply (simp only: Let_def tk option.case prod.case ab if_False na lt)
    done
qed

lemma failing_call_cancelled:
  assumes "\<not> cache_hit opts (now (requests s)) s" and "pending s = []" and "0 \<in> aborted s"
  shows "failing_call opts now errs s =
     retry_finally opts ((dispatch 0 (request_config opts) s)\<lparr>pending := []\<rparr>)"
proof -
  define s2 where "s2 = (dispatch 0 (request_config opts) s)\<lparr>pending := []\<rparr>"
  define q where "q = \<lparr>rid = requests s, signal = 0, req_config = request_config opts\<rparr>"
  have tk: "take_request (requests s) (retry_fetchData opts (now (requests s)) s) = Some (q, s2)"
    using assms(1) take_dispatch_fresh [OF assms(2)]
    by (simp add: retry_fetchData_def s2_def q_def)
  have ab: "(signal q \<in> aborted s2) = True"
    using assms(3) by (simp add: s2_def q_def dispatch_def)
  have rs: "retry_settle opts (now (requests s)) (Rejected CanceledError) s2 =
      retry_finally opts s2"
    by (simp add: retry_settle_def isCancel_CanceledError)
  have lt: "(timers s2 < timers (retry_finally opts s2)) = False"
    by (simp add: retry_finally_def)
  have "failing_call opts now errs s = retry_finally opts s2"
    apply (subst failing_call.simps)
    apply (simp only: Let_def tk option.case prod.case ab if_True rs lt if_False)
    done
  then show ?thesis by (simp only: s2_def)
qed

lemma next_attempt_fields:
  assumes "\<not> isCancel err"
  shows "requests (next_attempt opts err s) = Suc (requests s) \<and>
     cacheRef (next_attempt opts err s) = cacheRef s \<and>
     data (next_attempt opts err s) = data s \<and>
     aborted (next_attempt opts err s) = aborted s \<and>
     pending (next_attempt opts err s) = filter (\<lambda>q. rid q \<noteq> requests s) (pending s) \<and>
     error (next_attempt opts err s) =
       Some (if err_message err \<noteq> [] then err_message err else ''Something went wrong'') \<and>
     retryCountRef (next_attempt opts err s) =
       (if retryCountRef s < retry opts then Suc (retryCountRef s) else retryCountRef s) \<and>
     timers (next_attempt opts err s) =
       (if retryCountRef s < retry opts then Suc (timers s) else timers s) \<and>
     (\<not> retryCountRef s < retry opts \<longrightarrow> \<not> loading (next_attempt opts err s))"
  using assms
  by (simp add: next_attempt_def retry_settle_failure retry_finally_def dispatch_def)

lemma failing_call_attempts:
  assumes "\<forall>k. \<not> isCancel (errs k)"
  shows "(\<forall>k. \<not> cache_hit opts (now k) s) \<Longrightarrow> pending s = [] \<Longrightarrow> 0 \<notin> aborted s \<Longrightarrow>
     requests (failing_call opts now errs s) = requests s + (retry opts - retryCountRef s) + 1 \<and>
     retryCountRef (failing_call opts now errs s) = max (retry opts) (retryCountRef s) \<and>
     timers (failing_call opts now errs s) = timers s \<and>
     cacheRef (failing_call opts now errs s) = cacheRef s \<and>
     aborted (failing_call opts now errs s) = aborted s \<and>
     pending (failing_call opts now errs s) = [] \<and>
     data (failing_call opts now errs s) = data s \<and>
     \<not> loading (failing_call opts now errs s) \<and>
     error (failing_call opts now errs s) =
       Some (if err_message (errs (requests s + (retry opts - retryCountRef s))) \<noteq> []
             then err_message (errs (requests s + (retry opts - retryCountRef s)))
             else ''Something went wrong'')"
proof (induction "retry opts - retryCountRef s" arbitrary: s)
  case 0
  then have n: "\<not> retryCountRef s < retry opts" by simp
  from assms have c: "\<not> isCancel (errs (requests s))" by simp
  from 0 have h: "\<not> cache_hit opts (now (requests s)) s" by simp
  have step: "failing_call opts now errs s = next_attempt opts (errs (requests s)) s"
    using failing_call_step [where opts = opts and now = now and errs = errs and s = s,
        OF h c 0(3) 0(4)] n by simp
  show ?case using n next_attempt_fields [OF c, of opts s] 0(1) 0(3)
    by (simp add: step max_def)
next
  case (Suc n)
  then have lt: "retryCountRef s < retry opts" by simp
  from assms have c: "\<not> isCancel (errs (requests s))" by simp
  from Suc have hc: "\<not> cache_hit opts (now (requests s)) s" by simp
  let ?s' = "(next_attempt opts (errs (requests s)) s)
                \<lparr>timers := timers (next_attempt opts (errs (requests s)) s) - 1\<rparr>"
  have step: "failing_call opts now errs s = failing_call opts now errs ?s'"
    using failing_call_step [where opts = opts and now = now and errs = errs and s = s,
        OF hc c Suc(4) Suc(5)] lt by simp
  note g = next_attempt_fields [OF c, of opts s]
  have f: "requests ?s' = Suc (requests s)" "cacheRef ?s' = cacheRef s"
    "retryCountRef ?s' = Suc (retryCountRef s)" "timers ?s' = timers s" "data ?s' = data s"
    "aborted ?s' = aborted s"
    using g lt by simp_all
  have p: "pending ?s' = []" using g Suc(4) by simp
  have ab: "0 \<notin> aborted ?s'" using g Suc(5) by simp
  have m: "n = retry opts - retryCountRef ?s'" using Suc(2) g lt by simp
  have h: "\<forall>k. \<not> cache_hit opts (now k) ?s'"
    using Suc(3) cache_hit_cong [OF f(2)] by simp
  have a: "requests ?s' + (retry opts - retryCountRef ?s') =
      requests s + (retry opts - retryCountRef s)"
    using lt g by simp
  have b: "max (retry opts) (retryCountRef ?s') = max (retry opts) (retryCountRef s)"
    using lt g by simp
  note ih = Suc(1) [OF m h p ab, unfolded a b f(2) f(4) f(5) f(6)]
  show ?case unfolding step by (rule ih)
qed

lemma retry_count_never_decreases:
  "retryCountRef (retry_fetchData opts now s) = retryCountRef s \<and>
   retryCountRef s \<le> retryCountRef (retry_settle opts now out s) \<and>
   retryCountRef (retry_cancel s) = retryCountRef s"
  by (simp add: retry_fetchData_def retry_settle_def retry_finally_def retry_cancel_def
      dispatch_def abort_def Let_def split: outcome.split)

lemma retry_cancel_fields:
  "requests (retry_cancel s) = requests s \<and> pending (retry_cancel s) = pending s \<and>
   cacheRef (retry_cancel s) = cacheRef s \<and> 0 \<in> aborted (retry_cancel s)"
  by (simp add: retry_cancel_def abort_def)

lemma retry_fetchData_cached:
  assumes "cache opts" and "cacheExpiry opts = Some expiry"
    and "cacheRef s (url opts) = Some (d, timestamp)" and "now - timestamp < expiry"
  shows "data (retry_fetchData opts now s) = Some d \<and> \<not> loading (retry_fetchData opts now s) \<and>
    pending (retry_fetchData opts now s) = pending s \<and>
    requests (retry_fetchData opts now s) = requests s"
  using assms by (simp add: retry_fetchData_def cache_hit_def retry_finally_def)

lemma retry_fetchData_dispatch:
  assumes "requests (retry_fetchData opts now s) \<noteq> requests s"
    and "cacheExpiry opts = Some expiry"
  shows "\<not> (cache opts \<and> (\<exists>d timestamp. cacheRef s (url opts) = Some (d, timestamp) \<and>
     now - timestamp < expiry))"
  using assms
  by (auto simp: retry_fetchData_def cache_hit_def retry_finally_def split: if_splits)

lemma retry_settle_stores:
  assumes "cache opts"
  shows "cacheRef (retry_settle opts now (Fulfilled d) s) (url opts) = Some (d, now)"
  using assms by (simp add: retry_settle_def retry_finally_def Let_def)

lemma execute_cached:
  assumes "cacheKey props = Some key" and "key \<noteq> []"
    and "cacheStore s key = Some (d, timestamp)" and "now - timestamp < cacheDuration props"
  shows "data (execute props now ec s) = Some d \<and> \<not> loading (execute props now ec s) \<and>
    error (execute props now ec s) = None \<and>
    pending (execute props now ec s) = pending s \<and>
    requests (execute props now ec s) = requests s"
  using assms by (simp add: execute_def key_given_def isCacheValid_def Let_def)

lemma execute_dispatch:
  assumes "requests (execute props now ec s) \<noteq> requests s"
  shows "\<not> (\<exists>key d timestamp. cacheKey props = Some key \<and> key \<noteq> [] \<and>
     cacheStore s key = Some (d, timestamp) \<and> now - timestamp < cacheDuration props)"
  using assms
  by (auto simp: execute_def key_given_def isCacheValid_def Let_def split: if_splits option.splits)

lemma execute_settle_stores:
  assumes "cacheKey props = Some key" and "key \<noteq> []"
  shows "cacheStore (fst (execute_settle props now (Fulfilled d) s)) key = Some (d, now)"
  using assms by (simp add: execute_settle_def key_given_def Let_def)

text \<open>The definitions unfolded to run the hooks on given events.\<close>

lemmas rq_eval = rq_step_def run_start_def run_settle_def take_request_def dispatch_def abort_def
  client_outcome_def CanceledError_def isCancel_def cleanup_def reset_def useRequest_def
  new_Error_def network_error_def example_options_def default_options_def Let_def

lemmas ua_eval = ua_step_def fetchData_def fetchData_settle_def take_request_def dispatch_def
  abort_def client_outcome_def CanceledError_def cancel_def refetch_def render_def
  deps_changed_def useAxios_def new_Error_def network_error_def user_config_def
  detail_config_def Let_def

lemmas retry_eval = retry_fetchData_def retry_settle_def retry_finally_def cache_hit_def
  request_config_def take_request_def dispatch_def useAxios_retry_def example_retry_options_def
  isCancel_def new_Error_def network_error_def Let_def

lemma empty_cache_no_hit: "cacheRef s = Map.empty \<Longrightarrow> \<not> cache_hit opts now s"
  by (simp add: cache_hit_def)

lemma example_no_cache_hit:
  "cacheRef s = Map.empty \<Longrightarrow> \<not> cache_hit (example_retry_options expiry) now s"
  by (simp add: cache_hit_def)

lemmas store_eval = execute_def execute_settle_def key_given_def isCacheValid_def
  take_request_def dispatch_def useAxios_store_def example_props_def user_config_def Let_def

section \<open>Claims\<close>

text \<open>
  C9.  For every array of column descriptors \<open>a\<close> and every row array \<open>b\<close>,
  \<open>generateC a b\<close> has one result per descriptor, in order, whose label is the
  descriptor's headerName.  When the descriptor has an options array, the listOptions are
  those options' labels in order; otherwise they are the distinct values of the rows at the
  descriptor's field, without duplicates and in the order of their first occurrence.
\<close>

theorem generateC_spec:
  "length (generateC a b) = length a \<and>
   (\<forall>i<length a.
      label (generateC a b ! i) = headerName (a ! i) \<and>
      (case options (a ! i) of
         Some opts \<Rightarrow>
           map opt_label (listOptions (generateC a b ! i)) = map opt_label opts
       | None \<Rightarrow>
           first_occurrence_order (map (\<lambda>entry. entry (field (a ! i))) b)
             (map opt_label (listOptions (generateC a b ! i)))))"
proof (intro conjI allI impI)
  show "length (generateC a b) = length a" by (rule length_generateC)
next
  fix i assume i: "i < length a"
  show "label (generateC a b ! i) = headerName (a ! i)"
    by (simp add: generateC_nth [OF i] split: option.split)
next
  fix i assume i: "i < length a"
  show "case options (a ! i) of
         Some opts \<Rightarrow>
           map opt_label (listOptions (generateC a b ! i)) = map opt_label opts
       | None \<Rightarrow>
           first_occurrence_order (map (\<lambda>entry. entry (field (a ! i))) b)
             (map opt_label (listOptions (generateC a b ! i)))"
    by (simp add: generateC_nth [OF i] comp_def new_Set_first_occurrence_order
        split: option.split)
qed

theorem generateC_spec_witness:
  "(1::nat) < length example_a \<and>
   label (generateC example_a example_b ! 1) = ''Event Type'' \<and>
   first_occurrence_order [Some ''reme'', Some ''reme1'']
     (map opt_label (listOptions (generateC example_a example_b ! 1)))"
proof -
  have i: "(1::nat) < length example_a" by (simp add: example_a_def)
  from generateC_spec [of example_a example_b] i
  have "label (generateC example_a example_b ! 1) = headerName (example_a ! 1) \<and>
      (case options (example_a ! 1) of
         Some opts \<Rightarrow>
           map opt_label (listOptions (generateC example_a example_b ! 1)) = map opt_label opts
       | None \<Rightarrow>
           first_occurrence_order (map (\<lambda>entry. entry (field (example_a ! 1))) example_b)
             (map opt_label (listOptions (generateC example_a example_b ! 1))))"
    by blast
  then show ?thesis using i by (simp add: example_a_def example_b_def)
qed

text \<open>
  C10.  For every components array, \<open>transformToBarData\<close> returns as labels the distinct
  names in the order of their first occurrence, and one series per distinct label, also in
  the order of first occurrence.  Every series has stack \<open>''A''\<close> and the color of the first
  component with its label, and its data has one entry per distinct name: the value of the
  first component whose name and label both match, or 0 when there is none.
\<close>

theorem transformToBarData_spec:
  "first_occurrence_order (map comp_name components) (labels (transformToBarData components)) \<and>
   first_occurrence_order (map comp_label components)
     (map series_label (barData (transformToBarData components))) \<and>
   (\<forall>s \<in> set (barData (transformToBarData components)).
      stack s = ''A'' \<and>
      (\<exists>k. is_first_match (\<lambda>comp. comp_label comp = series_label s) components k \<and>
           series_color s = Some (comp_color (components ! k))) \<and>
      length (series_data s) = length (labels (transformToBarData components)) \<and>
      (\<forall>j < length (labels (transformToBarData components)).
         (\<exists>k. is_first_match (\<lambda>comp. comp_name comp = labels (transformToBarData components) ! j
                                  \<and> comp_label comp = series_label s) components k \<and>
              series_data s ! j = comp_value (components ! k)) \<or>
         ((\<forall>comp \<in> set components.
              \<not> (comp_name comp = labels (transformToBarData components) ! j
                 \<and> comp_label comp = series_label s)) \<and>
          series_data s ! j = 0)))"
proof (intro conjI ballI)
  show "first_occurrence_order (map comp_name components)
      (labels (transformToBarData components))"
    by (simp add: transformToBarData_def Let_def new_Set_first_occurrence_order)
next
  show "first_occurrence_order (map comp_label components)
      (map series_label (barData (transformToBarData components)))"
    by (simp add: transformToBarData_def Let_def comp_def new_Set_first_occurrence_order)
next
  fix s assume "s \<in> set (barData (transformToBarData components))"
  then obtain l where l: "l \<in> set (map comp_label components)"
    and s: "s = \<lparr>series_data = map (\<lambda>name.
                   (case List.find (\<lambda>comp. comp_name comp = name \<and> comp_label comp = l)
                           components of
                      Some item \<Rightarrow> comp_value item
                    | None \<Rightarrow> 0)) (new_Set (map comp_name components)),
                 stack = ''A'', series_label = l,
                 series_color = map_option comp_color
                   (List.find (\<lambda>comp. comp_label comp = l) components)\<rparr>"
    by (auto simp: transformToBarData_def Let_def set_new_Set)
  have names: "labels (transformToBarData components) = new_Set (map comp_name components)"
    by (simp add: transformToBarData_def Let_def)
  show "stack s = ''A''" by (simp add: s)
  show "length (series_data s) = length (labels (transformToBarData components))"
    by (simp add: s names)
  show "\<exists>k. is_first_match (\<lambda>comp. comp_label comp = series_label s) components k \<and>
           series_color s = Some (comp_color (components ! k))"
  proof -
    from l have "List.find (\<lambda>comp. comp_label comp = l) components \<noteq> None"
      by (auto simp: find_None_iff)
    then obtain c where "List.find (\<lambda>comp. comp_label comp = l) components = Some c"
      by blast
    then show ?thesis by (auto simp: s find_first_match)
  qed
  show "\<forall>j < length (labels (transformToBarData components)).
         (\<exists>k. is_first_match (\<lambda>comp. comp_name comp = labels (transformToBarData components) ! j
                                  \<and> comp_label comp = series_label s) components k \<and>
              series_data s ! j = comp_value (components ! k)) \<or>
         ((\<forall>comp \<in> set components.
              \<not> (comp_name comp = labels (transformToBarData components) ! j
                 \<and> comp_label comp = series_label s)) \<and>
          series_data s ! j = 0)"
  proof (intro allI impI)
    fix j assume j: "j < length (labels (transformToBarData components))"
    let ?n = "new_Set (map comp_name components) ! j"
    let ?P = "\<lambda>comp. comp_name comp = ?n \<and> comp_label comp = l"
    have d: "series_data s ! j =
        (case List.find ?P components of Some item \<Rightarrow> comp_value item | None \<Rightarrow> 0)"
      using j by (simp add: s names)
    show "(\<exists>k. is_first_match (\<lambda>comp. comp_name comp = labels (transformToBarData components) ! j
                                  \<and> comp_label comp = series_label s) components k \<and>
              series_data s ! j = comp_value (components ! k)) \<or>
         ((\<forall>comp \<in> set components.
              \<not> (comp_name comp = labels (transformToBarData components) ! j
                 \<and> comp_label comp = series_label s)) \<and>
          series_data s ! j = 0)"
    proof (cases "List.find ?P components")
      case None
      then have "\<forall>comp \<in> set components. \<not> ?P comp"
        by (simp add: find_None_iff)
      then show ?thesis using None d by (simp add: names s)
    next
      case (Some c)
      then obtain k where "is_first_match ?P components k" "c = components ! k"
        by (auto simp: find_first_match)
      then show ?thesis using Some d by (auto simp: names s)
    qed
  qed
qed

theorem transformToBarData_spec_witness:
  "barData (transformToBarData example_components) ! 1
     \<in> set (barData (transformToBarData example_components)) \<and>
   (1::nat) < length (labels (transformToBarData example_components)) \<and>
   labels (transformToBarData example_components) = [''Q1'', ''Q2''] \<and>
   map series_label (barData (transformToBarData example_components)) = [''apples'', ''pears''] \<and>
   stack (barData (transformToBarData example_components) ! 1) = ''A'' \<and>
   series_data (barData (transformToBarData example_components) ! 1) = [2, 0] \<and>
   series_color (barData (transformToBarData example_components) ! 1) = Some ''green''"
proof -
  let ?r = "transformToBarData example_components"
  have ev: "labels ?r = [''Q1'', ''Q2'']"
    "barData ?r =
       [\<lparr>series_data = [3, 5], stack = ''A'', series_label = ''apples'',
          series_color = Some ''red''\<rparr>,
        \<lparr>series_data = [2, 0], stack = ''A'', series_label = ''pears'',
          series_color = Some ''green''\<rparr>]"
    by (simp_all add: transformToBarData_def example_components_def new_Set_def Let_def)
  have m: "barData ?r ! 1 \<in> set (barData ?r)" by (simp add: ev)
  from transformToBarData_spec [of example_components] m
  have "stack (barData ?r ! 1) = ''A'' \<and>
      length (series_data (barData ?r ! 1)) = length (labels ?r)"
    by blast
  then show ?thesis using m by (simp add: ev)
qed




text \<open>
  C2, as the code has it.  \<^verbatim>\<open>useAxios\<close> (axios4) holds the data of a first request;
  a second request fails for the network, and the hook stores the error and puts
  \<^verbatim>\<open>data\<close> back to null.
\<close>

theorem failure_clears_data_counterexample:
  "map_option (\<lambda>s. (data s, error s))
     (ua_exec [Refetch None, Render detail_config False, Settle 0 (Fulfilled 1),
               Render detail_config False, Refetch None, Render detail_config False]
        (useAxios detail_config False))
     = Some (Some (1::nat), None) \<and>
   map_option (\<lambda>s. (data s, error s))
     (ua_exec [Refetch None, Render detail_config False, Settle 0 (Fulfilled 1),
               Render detail_config False, Refetch None, Render detail_config False,
               Settle 1 (Rejected network_error)]
        (useAxios detail_config False))
     = Some (None :: nat option, Some network_error)"
  by (simp add: ua_eval)

text \<open>
  C2, amended.  When a request fails with an error that is not the cancellation, the hook
  stores an error in its error state: \<^verbatim>\<open>useRequest\<close> stores the error (an
  \<^verbatim>\<open>Error\<close> made for it when the thrown value is none) and leaves \<^verbatim>\<open>data\<close> as it
  was; \<^verbatim>\<open>useAxios\<close> of axios4 stores the error and sets \<^verbatim>\<open>data\<close> to null; and
  \<^verbatim>\<open>useAxios\<close> of part_000 does the same once no retry is left.
\<close>

theorem failure_stores_error:
  "(rq_step opts config (Settle r (Rejected err)) s = Some s' \<and> err \<noteq> CanceledError \<longrightarrow>
      error s' = Some (if is_Error err then err else new_Error ''Request failed'') \<and>
      is_Error (the (error s')) \<and> data s' = data s) \<and>
   (ua_step (Settle r (Rejected err)) u = Some u' \<and> err \<noteq> CanceledError \<longrightarrow>
      error u' = Some err \<and> data u' = None) \<and>
   (\<not> isCancel err \<and> \<not> retryCount p < retry0 popts \<longrightarrow>
      error (paged_settle popts pconfig isLoadMore (Rejected err) p) = Some err \<and>
      data (paged_settle popts pconfig isLoadMore (Rejected err) p) = None)"
proof (intro conjI impI)
  assume a: "rq_step opts config (Settle r (Rejected err)) s = Some s' \<and> err \<noteq> CanceledError"
  from rq_settle_failure [OF conjunct1 [OF a] refl conjunct2 [OF a]]
  show "error s' = Some (if is_Error err then err else new_Error ''Request failed'')"
    and "data s' = data s" by simp_all
  then show "is_Error (the (error s'))" by (simp add: new_Error_def)
next
  assume a: "ua_step (Settle r (Rejected err)) u = Some u' \<and> err \<noteq> CanceledError"
  from ua_settle_failure [OF conjunct1 [OF a] refl conjunct2 [OF a]]
  show "error u' = Some err" and "data u' = None" by simp_all
next
  assume a: "\<not> isCancel err \<and> \<not> retryCount p < retry0 popts"
  from paged_settle_failure [OF conjunct1 [OF a] conjunct2 [OF a]]
  show "error (paged_settle popts pconfig isLoadMore (Rejected err) p) = Some err"
    and "data (paged_settle popts pconfig isLoadMore (Rejected err) p) = None" by simp_all
qed

theorem failure_stores_error_witness:
  "rq_exec example_options user_config [Run None, Settle 0 (Rejected network_error)]
     (useRequest example_options) \<noteq> None \<and>
   network_error \<noteq> CanceledError \<and>
   map_option error (rq_exec example_options user_config
      [Run None, Settle 0 (Rejected network_error)] (useRequest example_options))
     = Some (Some network_error) \<and>
   map_option data (rq_exec example_options user_config
      [Run None, Settle 0 (Rejected network_error)] (useRequest example_options))
     = Some None \<and>
   map_option (\<lambda>s. (data s, error s))
     (ua_exec [Refetch None, Settle 0 (Rejected network_error)]
        (useAxios detail_config False :: nat useAxios_state))
     = Some (None, Some network_error) \<and>
   \<not> isCancel network_error \<and>
   \<not> retryCount (useAxios_paged example_paged_options Map.empty) < retry0 example_paged_options \<and>
   error (paged_settle example_paged_options user_config False (Rejected network_error)
            (useAxios_paged example_paged_options Map.empty)) = Some network_error"
proof -
  define s where "s = the (rq_exec example_options user_config [Run None] (useRequest example_options))"
  define s' where "s' = the (rq_step example_options user_config (Settle 0 (Rejected network_error)) s)"
  define u where "u = the (ua_exec [Refetch None] (useAxios detail_config False :: nat useAxios_state))"
  define u' where "u' = the (ua_step (Settle 0 (Rejected network_error)) u)"
  have 1: "rq_step example_options user_config (Settle 0 (Rejected network_error)) s = Some s'"
    by (simp add: s'_def s_def rq_eval)
  have 2: "network_error \<noteq> CanceledError"
    by (simp add: network_error_def new_Error_def CanceledError_def)
  have 3: "ua_step (Settle 0 (Rejected network_error)) u = Some u'"
    by (simp add: u'_def u_def ua_eval)
  have 4: "\<not> isCancel network_error"
    by (simp add: isCancel_def network_error_def new_Error_def)
  have 5: "\<not> retryCount (useAxios_paged example_paged_options Map.empty) < retry0 example_paged_options"
    by (simp add: useAxios_paged_def example_paged_options_def)
  from failure_stores_error [of example_options user_config 0 network_error s s' u u'
      "useAxios_paged example_paged_options Map.empty" example_paged_options user_config False]
    1 2 3 4 5
  have "error s' = Some network_error \<and> data s' = data s \<and> error u' = Some network_error \<and>
      data u' = None \<and>
      error (paged_settle example_paged_options user_config False (Rejected network_error)
            (useAxios_paged example_paged_options Map.empty)) = Some network_error"
    by (simp add: network_error_def new_Error_def)
  then show ?thesis using 2 4 5
    by (simp add: s'_def s_def u'_def u_def rq_eval ua_eval)
qed

text \<open>
  C5, as the code has it.  \<^verbatim>\<open>run\<close> of \<^verbatim>\<open>useRequest\<close> throws the error again after
  storing it: the promise it returned is rejected with the error.
\<close>

theorem rejected_promise_counterexample:
  "map_option (\<lambda>s. (error s, calls s, returned s))
     (rq_exec example_options user_config [Run None, Settle 0 (Rejected network_error)]
        (useRequest example_options))
     = Some (Some network_error, [OnError network_error], [(0, Rejected network_error)])"
  by (simp add: rq_eval)

text \<open>
  C5, amended.  Every failure of a request that is not the cancellation is caught inside
  the hook and recorded in its error state.  \<^verbatim>\<open>useRequest\<close> forwards it to
  \<^verbatim>\<open>onError\<close> when the caller supplied one and then throws it again, so that the promise
  of \<^verbatim>\<open>run\<close> is rejected with it; \<^verbatim>\<open>useAxios\<close> of axios4 takes no callback and the
  promise of its \<^verbatim>\<open>fetchData\<close> is fulfilled whatever the request did.
\<close>

theorem failure_caught_and_recorded:
  "(rq_step opts config (Settle r (Rejected err)) s = Some s' \<and> err \<noteq> CanceledError \<longrightarrow>
      error s' = Some (if is_Error err then err else new_Error ''Request failed'') \<and>
      calls s' = calls s @
        (if onError opts
         then [OnError (if is_Error err then err else new_Error ''Request failed'')] else []) \<and>
      returned s' = returned s @
        [(r, Rejected (if is_Error err then err else new_Error ''Request failed''))]) \<and>
   (ua_step (Settle r (Rejected err)) u = Some u' \<and> err \<noteq> CanceledError \<longrightarrow>
      error u' = Some err) \<and>
   snd (fetchData_settle out u) = Fulfilled ()"
proof (intro conjI impI)
  assume a: "rq_step opts config (Settle r (Rejected err)) s = Some s' \<and> err \<noteq> CanceledError"
  from rq_settle_failure [OF conjunct1 [OF a] refl conjunct2 [OF a]]
  show "error s' = Some (if is_Error err then err else new_Error ''Request failed'')"
    and "calls s' = calls s @
        (if onError opts
         then [OnError (if is_Error err then err else new_Error ''Request failed'')] else [])"
    and "returned s' = returned s @
        [(r, Rejected (if is_Error err then err else new_Error ''Request failed''))]"
    by simp_all
next
  assume a: "ua_step (Settle r (Rejected err)) u = Some u' \<and> err \<noteq> CanceledError"
  from ua_settle_failure [OF conjunct1 [OF a] refl conjunct2 [OF a]]
  show "error u' = Some err" by simp
next
  show "snd (fetchData_settle out u) = Fulfilled ()" by (simp add: fetchData_settle_frame)
qed

theorem failure_caught_and_recorded_witness:
  "rq_exec example_options user_config [Run None, Settle 0 (Rejected network_error)]
     (useRequest example_options) \<noteq> None \<and>
   network_error \<noteq> CanceledError \<and>
   map_option (\<lambda>s. (error s, calls s, returned s))
     (rq_exec example_options user_config [Run None, Settle 0 (Rejected network_error)]
        (useRequest example_options))
     = Some (Some network_error, [OnError network_error], [(0, Rejected network_error)]) \<and>
   map_option error
     (ua_exec [Refetch None, Settle 0 (Rejected network_error)]
        (useAxios detail_config False :: nat useAxios_state))
     = Some (Some network_error)"
proof -
  define s where "s = the (rq_exec example_options user_config [Run None] (useRequest example_options))"
  define s' where "s' = the (rq_step example_options user_config (Settle 0 (Rejected network_error)) s)"
  define u where "u = the (ua_exec [Refetch None] (useAxios detail_config False :: nat useAxios_state))"
  define u' where "u' = the (ua_step (Settle 0 (Rejected network_error)) u)"
  have 1: "rq_step example_options user_config (Settle 0 (Rejected network_error)) s = Some s'"
    by (simp add: s'_def s_def rq_eval)
  have 2: "network_error \<noteq> CanceledError"
    by (simp add: network_error_def new_Error_def CanceledError_def)
  have 3: "ua_step (Settle 0 (Rejected network_error)) u = Some u'"
    by (simp add: u'_def u_def ua_eval)
  from failure_caught_and_recorded [of example_options user_config 0 network_error s s' u u'] 1 2 3
  have "error s' = Some network_error \<and> calls s' = calls s @ [OnError network_error] \<and>
      returned s' = returned s @ [(0, Rejected network_error)] \<and> error u' = Some network_error"
    by (simp add: network_error_def new_Error_def example_options_def)
  then show ?thesis using 2
    by (simp add: s'_def s_def u'_def u_def rq_eval ua_eval)
qed

text \<open>
  C3, as the code has it.  The hook of part_007 and part_008, rendered, with
  \<^verbatim>\<open>retry: 3\<close> and every attempt failing for the network.  After the first failed
  attempt the message is in the error state although a retry is scheduled and
  \<^verbatim>\<open>loading\<close> is still true.  The first call makes four attempts and leaves the retry
  count at 3.  When the caller then changes the URL the effect runs again: its cleanup
  cancels the token and \<^verbatim>\<open>fetchData\<close> starts the next call with the retry count
  still at 3; that call makes one attempt, which the client rejects as cancelled.
\<close>

theorem retry_counterexample:
  "useAxios_retry_render True = Inr (useAxios_retry :: nat retry_state) \<and>
   (let s = retry_settle (example_retry_options None) 0 (Rejected network_error)
              (snd (the (take_request 0
                 (retry_fetchData (example_retry_options None) 0 useAxios_retry))))
    in error s = Some ''Network Error'' \<and> timers s = 1 \<and> loading s) \<and>
   requests (failing_call (example_retry_options None) (\<lambda>k. 0) (\<lambda>k. network_error)
     useAxios_retry) = 4 \<and>
   retryCountRef (failing_call (example_retry_options None) (\<lambda>k. 0) (\<lambda>k. network_error)
     useAxios_retry) = 3 \<and>
   retryCountRef (retry_fetchData changed_retry_options 0
     (retry_cancel (failing_call (example_retry_options None) (\<lambda>k. 0) (\<lambda>k. network_error)
        useAxios_retry))) = 3 \<and>
   requests (failing_call changed_retry_options (\<lambda>k. 0) (\<lambda>k. network_error)
     (retry_cancel (failing_call (example_retry_options None) (\<lambda>k. 0) (\<lambda>k. network_error)
        useAxios_retry))) = 5"
proof -
  let ?o = "example_retry_options None"
  let ?s1 = "failing_call ?o (\<lambda>k. 0) (\<lambda>k. network_error) useAxios_retry"
  have c: "\<forall>k::nat. \<not> isCancel network_error"
    by (simp add: isCancel_def network_error_def new_Error_def)
  have h0: "\<forall>k::nat. \<not> cache_hit ?o 0 (useAxios_retry :: nat retry_state)"
    by (simp add: example_no_cache_hit useAxios_retry_def)
  have p0: "pending (useAxios_retry :: nat retry_state) = []"
    "0 \<notin> aborted (useAxios_retry :: nat retry_state)"
    by (simp_all add: useAxios_retry_def)
  note a = failing_call_attempts [where errs = "\<lambda>k. network_error" and now = "\<lambda>k. 0"
      and opts = ?o and s = useAxios_retry, OF c h0 p0]
  have r: "retry ?o = 3" by (simp add: example_retry_options_def)
  from a r have a': "requests ?s1 = 4" "retryCountRef ?s1 = 3"
    by (simp_all add: useAxios_retry_def)
  from a have e: "cacheRef (retry_cancel ?s1) = Map.empty" "pending (retry_cancel ?s1) = []"
    by (simp_all add: useAxios_retry_def retry_cancel_fields)
  let ?c = changed_retry_options
  have h1: "\<not> cache_hit ?c 0 (retry_cancel ?s1)"
    using empty_cache_no_hit [OF e(1)] by simp
  have ab: "0 \<in> aborted (retry_cancel ?s1)" by (simp add: retry_cancel_fields)
  have b: "failing_call ?c (\<lambda>k. 0) (\<lambda>k. network_error) (retry_cancel ?s1) =
      retry_finally ?c ((dispatch 0 (request_config ?c) (retry_cancel ?s1))\<lparr>pending := []\<rparr>)"
    using failing_call_cancelled [where now = "\<lambda>k. 0" and opts = ?c and s = "retry_cancel ?s1",
        OF h1 e(2) ab] .
  have b': "requests (failing_call ?c (\<lambda>k. 0) (\<lambda>k. network_error) (retry_cancel ?s1)) = 5"
    using a' by (simp add: b retry_finally_def dispatch_def retry_cancel_fields)
  have d: "retryCountRef (retry_fetchData ?c 0 (retry_cancel ?s1)) = 3"
    using a' by (simp add: retry_count_never_decreases)
  have f: "let s = retry_settle ?o 0 (Rejected network_error)
              (snd (the (take_request 0 (retry_fetchData ?o 0 useAxios_retry))))
    in error s = Some ''Network Error'' \<and> timers s = 1 \<and> loading s"
    by (simp add: retry_eval)
  have g: "useAxios_retry_render True = Inr (useAxios_retry :: nat retry_state)"
    by (simp add: useAxios_retry_render_def)
  from f g a' b' d show ?thesis by simp
qed

text \<open>
  C3, amended.  In the hooks of part_007 and part_008, once the hook has rendered (the
  identifier \<^verbatim>\<open>axios\<close>, which the snippets use without importing it, being bound), the
  call made when the hook mounts, if all its attempts fail with errors other than the
  cancellation, makes exactly N + 1 attempts for retry = N and ends with the message of
  the last failure in the error state, \<^verbatim>\<open>loading\<close> false and the retry count at N.
  Every failed attempt stores its message in the error state, not the last one only.  The
  retry count is never reset: neither \<^verbatim>\<open>fetchData\<close>, nor its continuation, nor
  \<^verbatim>\<open>cancel\<close> and the cleanup of the effect decrease it.
\<close>

theorem retry_attempts:
  assumes "useAxios_retry_render axios_bound = Inr s" and "\<forall>k. \<not> isCancel (errs k)"
  shows "axios_bound \<and>
     requests (failing_call opts now errs s) = retry opts + 1 \<and>
     retryCountRef (failing_call opts now errs s) = retry opts \<and>
     \<not> loading (failing_call opts now errs s) \<and>
     error (failing_call opts now errs s) =
       Some (if err_message (errs (retry opts)) \<noteq> [] then err_message (errs (retry opts))
             else ''Something went wrong'') \<and>
     (\<not> isCancel err \<longrightarrow>
        error (retry_settle opts t (Rejected err) u) =
          Some (if err_message err \<noteq> [] then err_message err else ''Something went wrong'')) \<and>
     retryCountRef (retry_fetchData opts t u) = retryCountRef u \<and>
     retryCountRef u \<le> retryCountRef (retry_settle opts t out u) \<and>
     retryCountRef (retry_cancel u) = retryCountRef u"
proof -
  from assms(1) have b: "axios_bound" and s: "s = useAxios_retry"
    by (auto simp: useAxios_retry_render_def split: if_splits)
  have h: "\<forall>k. \<not> cache_hit opts (now k) s"
    by (simp add: s cache_hit_def useAxios_retry_def)
  have p: "pending s = []" "0 \<notin> aborted s" by (simp_all add: s useAxios_retry_def)
  have z: "requests s = 0" "retryCountRef s = 0" by (simp_all add: s useAxios_retry_def)
  note a = failing_call_attempts [OF assms(2) h p, unfolded z]
  have e: "\<not> isCancel err \<longrightarrow>
        error (retry_settle opts t (Rejected err) u) =
          Some (if err_message err \<noteq> [] then err_message err else ''Something went wrong'')"
    by (simp add: retry_settle_failure retry_finally_def)
  from a b e retry_count_never_decreases [of opts t u out] show ?thesis by simp
qed

theorem retry_attempts_witness:
  "useAxios_retry_render True = Inr (useAxios_retry :: nat retry_state) \<and>
   (\<forall>k::nat. \<not> isCancel network_error) \<and>
   requests (failing_call (example_retry_options (Some 60000)) (\<lambda>k. 0) (\<lambda>k. network_error)
     useAxios_retry) = 4 \<and>
   retryCountRef (failing_call (example_retry_options (Some 60000)) (\<lambda>k. 0)
     (\<lambda>k. network_error) useAxios_retry) = 3 \<and>
   error (failing_call (example_retry_options (Some 60000)) (\<lambda>k. 0) (\<lambda>k. network_error)
     useAxios_retry) = Some ''Network Error'' \<and>
   error (retry_settle (example_retry_options (Some 60000)) 0 (Rejected network_error)
     (useAxios_retry :: nat retry_state)) = Some ''Network Error''"
proof -
  have r: "useAxios_retry_render True = Inr (useAxios_retry :: nat retry_state)"
    by (simp add: useAxios_retry_render_def)
  have c: "\<forall>k::nat. \<not> isCancel network_error"
    by (simp add: isCancel_def network_error_def new_Error_def)
  from retry_attempts [where errs = "\<lambda>k. network_error" and now = "\<lambda>k. 0"
      and opts = "example_retry_options (Some 60000)" and err = network_error
      and t = 0 and u = useAxios_retry and out = "Rejected network_error", OF r c] r c
  show ?thesis
    by (simp add: example_retry_options_def network_error_def new_Error_def)
qed

text \<open>
  C4.  In the hooks of part_008 and part_010, a call made with caching enabled while the
  cache holds an entry for the key (the URL in part_008, \<^verbatim>\<open>cacheKey\<close> in part_010) that
  is not expired puts the cached value in the state, with \<^verbatim>\<open>loading\<close> false, and hands
  no request to the client; a request is dispatched only when this test fails.  The entry
  stored by a successful request is such an entry for every later call, of the same
  configuration, that comes before it expires.
\<close>

theorem cached_entry_served_without_request:
  "(cache opts \<and> cacheExpiry opts = Some expiry \<and>
    cacheRef s (url opts) = Some (d, timestamp) \<and> now - timestamp < expiry \<longrightarrow>
      data (retry_fetchData opts now s) = Some d \<and> \<not> loading (retry_fetchData opts now s) \<and>
      pending (retry_fetchData opts now s) = pending s \<and>
      requests (retry_fetchData opts now s) = requests s) \<and>
   (cacheExpiry opts = Some expiry \<and> requests (retry_fetchData opts now s) \<noteq> requests s \<longrightarrow>
      \<not> (cache opts \<and> (\<exists>d timestamp. cacheRef s (url opts) = Some (d, timestamp) \<and>
           now - timestamp < expiry))) \<and>
   (cache opts \<longrightarrow>
      cacheRef (retry_settle opts now (Fulfilled d) s) (url opts) = Some (d, now)) \<and>
   (cacheKey props = Some key \<and> key \<noteq> [] \<and>
    cacheStore t key = Some (d, timestamp) \<and> now - timestamp < cacheDuration props \<longrightarrow>
      data (execute props now ec t) = Some d \<and> \<not> loading (execute props now ec t) \<and>
      error (execute props now ec t) = None \<and>
      pending (execute props now ec t) = pending t \<and>
      requests (execute props now ec t) = requests t) \<and>
   (requests (execute props now ec t) \<noteq> requests t \<longrightarrow>
      \<not> (\<exists>key d timestamp. cacheKey props = Some key \<and> key \<noteq> [] \<and>
           cacheStore t key = Some (d, timestamp) \<and> now - timestamp < cacheDuration props)) \<and>
   (cacheKey props = Some key \<and> key \<noteq> [] \<longrightarrow>
      cacheStore (fst (execute_settle props now (Fulfilled d) t)) key = Some (d, now))"
proof (intro conjI impI)
  assume "cache opts \<and> cacheExpiry opts = Some expiry \<and>
    cacheRef s (url opts) = Some (d, timestamp) \<and> now - timestamp < expiry"
  then have "cache opts" "cacheExpiry opts = Some expiry"
    "cacheRef s (url opts) = Some (d, timestamp)" "now - timestamp < expiry" by simp_all
  from retry_fetchData_cached [OF this]
  show "data (retry_fetchData opts now s) = Some d" "\<not> loading (retry_fetchData opts now s)"
    "pending (retry_fetchData opts now s) = pending s"
    "requests (retry_fetchData opts now s) = requests s" by simp_all
next
  assume "cacheExpiry opts = Some expiry \<and> requests (retry_fetchData opts now s) \<noteq> requests s"
  then have "requests (retry_fetchData opts now s) \<noteq> requests s" "cacheExpiry opts = Some expiry"
    by simp_all
  from retry_fetchData_dispatch [OF this]
  show "\<not> (cache opts \<and> (\<exists>d timestamp. cacheRef s (url opts) = Some (d, timestamp) \<and>
           now - timestamp < expiry))" .
next
  assume "cache opts"
  then show "cacheRef (retry_settle opts now (Fulfilled d) s) (url opts) = Some (d, now)"
    by (rule retry_settle_stores)
next
  assume "cacheKey props = Some key \<and> key \<noteq> [] \<and>
    cacheStore t key = Some (d, timestamp) \<and> now - timestamp < cacheDuration props"
  then have "cacheKey props = Some key" "key \<noteq> []"
    "cacheStore t key = Some (d, timestamp)" "now - timestamp < cacheDuration props" by simp_all
  from execute_cached [OF this]
  show "data (execute props now ec t) = Some d" "\<not> loading (execute props now ec t)"
    "error (execute props now ec t) = None"
    "pending (execute props now ec t) = pending t"
    "requests (execute props now ec t) = requests t" by simp_all
next
  assume "requests (execute props now ec t) \<noteq> requests t"
  from execute_dispatch [OF this]
  show "\<not> (\<exists>key d timestamp. cacheKey props = Some key \<and> key \<noteq> [] \<and>
           cacheStore t key = Some (d, timestamp) \<and> now - timestamp < cacheDuration props)" .
next
  assume "cacheKey props = Some key \<and> key \<noteq> []"
  then have "cacheKey props = Some key" "key \<noteq> []" by simp_all
  from execute_settle_stores [OF this]
  show "cacheStore (fst (execute_settle props now (Fulfilled d) t)) key = Some (d, now)" .
qed

theorem cached_entry_served_without_request_witness:
  "(let opts = example_retry_options (Some 60000);
        s = retry_settle opts 5 (Fulfilled 7)
              (snd (the (take_request 0 (retry_fetchData opts 0 useAxios_retry))))
    in cache opts \<and> cacheExpiry opts = Some 60000 \<and> cacheRef s (url opts) = Some (7, 5) \<and>
       (100::int) - 5 < 60000 \<and>
       data (retry_fetchData opts 100 s) = Some 7 \<and>
       requests (retry_fetchData opts 100 s) = requests s \<and>
       requests (retry_fetchData opts 70000 s) \<noteq> requests s) \<and>
   (let t = fst (execute_settle example_props 5 (Fulfilled 7)
              (snd (the (take_request 0
                 (execute example_props 0 None (useAxios_store Map.empty)))))) :: nat store_state
    in cacheKey example_props = Some ''users'' \<and> cacheStore t ''users'' = Some (7, 5) \<and>
       (100::int) - 5 < cacheDuration example_props \<and>
       data (execute example_props 100 None t) = Some 7 \<and>
       requests (execute example_props 100 None t) = requests t \<and>
       requests (execute example_props 40000 None t) \<noteq> requests t)"
proof -
  define opts where "opts = example_retry_options (Some 60000)"
  define s0 :: "nat retry_state"
    where "s0 = snd (the (take_request 0 (retry_fetchData opts 0 useAxios_retry)))"
  define s where "s = retry_settle opts 5 (Fulfilled 7) s0"
  define t0 :: "nat store_state"
    where "t0 = snd (the (take_request 0 (execute example_props 0 None (useAxios_store Map.empty))))"
  define t where "t = fst (execute_settle example_props 5 (Fulfilled 7) t0)"
  have 1: "cache opts" "cacheExpiry opts = Some 60000"
    by (simp_all add: opts_def example_retry_options_def)
  have 2: "cacheKey example_props = Some ''users''" "''users'' \<noteq> []"
    "(100::int) - 5 < cacheDuration example_props"
    by (simp_all add: example_props_def)
  note inst = cached_entry_served_without_request [where opts = opts and expiry = 60000
      and props = example_props and key = "''users''" and d = 7 and ec = None]
  from inst [where s = s0 and now = 5 and t = t0] 1 2
  have 3: "cacheRef s (url opts) = Some (7, 5)" "cacheStore t ''users'' = Some (7, 5)"
    by (simp_all add: s_def t_def)
  from inst [where s = s and now = 100 and t = t and timestamp = 5] 1 2 3
  have 4: "data (retry_fetchData opts 100 s) = Some 7"
    "requests (retry_fetchData opts 100 s) = requests s"
    "data (execute example_props 100 None t) = Some 7"
    "requests (execute example_props 100 None t) = requests t"
    by simp_all
  have 5: "requests (retry_fetchData opts 70000 s) \<noteq> requests s"
    by (simp add: s_def s0_def opts_def retry_eval)
  have 6: "requests (execute example_props 40000 None t) \<noteq> requests t"
    by (simp add: t_def t0_def store_eval)
  show ?thesis
    using 1 2 3 4 5 6
    unfolding Let_def opts_def [symmetric] s0_def [symmetric] s_def [symmetric]
      t0_def [symmetric] t_def [symmetric]
    by simp
qed




text \<open>
  C7.  When a request ends by cancellation, \<^verbatim>\<open>useRequest\<close> and \<^verbatim>\<open>useAxios\<close> of
  axios4 change neither \<^verbatim>\<open>data\<close> nor \<^verbatim>\<open>error\<close>; and whenever a step of one of
  these hooks puts a new error in the error state, that step is the settling of a request
  that failed with an error other than the cancellation.
\<close>

theorem cancellation_not_surfaced:
  "(rq_step opts config (Settle r (Rejected CanceledError)) s = Some s' \<longrightarrow>
      data s' = data s \<and> error s' = error s) \<and>
   (ua_step (Settle r (Rejected CanceledError)) u = Some u' \<longrightarrow>
      data u' = data u \<and> error u' = error u) \<and>
   (rq_step opts config ev s = Some s' \<and> error s' \<noteq> error s \<and> error s' \<noteq> None \<longrightarrow>
      (\<exists>r err. ev = Settle r (Rejected err) \<and> err \<noteq> CanceledError)) \<and>
   (ua_step uev u = Some u' \<and> error u' \<noteq> error u \<and> error u' \<noteq> None \<longrightarrow>
      (\<exists>r err. uev = Settle r (Rejected err) \<and> err \<noteq> CanceledError))"
proof (intro conjI impI)
  assume "rq_step opts config (Settle r (Rejected CanceledError)) s = Some s'"
  from rq_settle_cancel [OF this] show "data s' = data s" "error s' = error s" by simp_all
next
  assume "ua_step (Settle r (Rejected CanceledError)) u = Some u'"
  from ua_settle_cancel [OF this] show "data u' = data u" "error u' = error u" by simp_all
next
  assume "rq_step opts config ev s = Some s' \<and> error s' \<noteq> error s \<and> error s' \<noteq> None"
  then have "rq_step opts config ev s = Some s'" "error s' \<noteq> error s" "error s' \<noteq> None"
    by simp_all
  from rq_error_set [OF this]
  show "\<exists>r err. ev = Settle r (Rejected err) \<and> err \<noteq> CanceledError" .
next
  assume "ua_step uev u = Some u' \<and> error u' \<noteq> error u \<and> error u' \<noteq> None"
  then have "ua_step uev u = Some u'" "error u' \<noteq> error u" "error u' \<noteq> None"
    by simp_all
  from ua_error_set [OF this]
  show "\<exists>r err. uev = Settle r (Rejected err) \<and> err \<noteq> CanceledError" .
qed

theorem cancellation_not_surfaced_witness:
  "rq_exec example_options user_config [Run None, Run None, Settle 0 (Rejected CanceledError)]
     (useRequest example_options) \<noteq> None \<and>
   ua_exec [Render user_config True, Render detail_config True, Settle 0 (Rejected CanceledError)]
     (useAxios user_config True :: nat useAxios_state) \<noteq> None \<and>
   map_option (\<lambda>s. (data s, error s))
     (rq_exec example_options user_config [Run None, Run None, Settle 0 (Rejected CanceledError)]
        (useRequest example_options)) =
   map_option (\<lambda>s. (data s, error s))
     (rq_exec example_options user_config [Run None, Run None] (useRequest example_options)) \<and>
   map_option (\<lambda>s. (data s, error s))
     (ua_exec [Render user_config True, Render detail_config True,
               Settle 0 (Rejected CanceledError)]
        (useAxios user_config True :: nat useAxios_state)) =
   map_option (\<lambda>s. (data s, error s))
     (ua_exec [Render user_config True, Render detail_config True]
        (useAxios user_config True :: nat useAxios_state)) \<and>
   map_option error
     (rq_exec example_options user_config [Run None, Settle 0 (Rejected network_error)]
        (useRequest example_options)) = Some (Some network_error) \<and>
   network_error \<noteq> CanceledError"
proof -
  define s where "s = the (rq_exec example_options user_config [Run None, Run None]
    (useRequest example_options))"
  define s' where "s' = the (rq_step example_options user_config
    (Settle 0 (Rejected CanceledError)) s)"
  define u where "u = the (ua_exec [Render user_config True, Render detail_config True]
    (useAxios user_config True :: nat useAxios_state))"
  define u' where "u' = the (ua_step (Settle 0 (Rejected CanceledError)) u)"
  define p where "p = the (rq_exec example_options user_config [Run None]
    (useRequest example_options))"
  define p' where "p' = the (rq_step example_options user_config
    (Settle 0 (Rejected network_error)) p)"
  have 1: "rq_step example_options user_config (Settle 0 (Rejected CanceledError)) s = Some s'"
    by (simp add: s'_def s_def rq_eval)
  have 2: "ua_step (Settle 0 (Rejected CanceledError)) u = Some u'"
    by (simp add: u'_def u_def ua_eval)
  have 3: "rq_step example_options user_config (Settle 0 (Rejected network_error)) p = Some p'"
    "error p' \<noteq> error p" "error p' \<noteq> None"
    by (simp_all add: p'_def p_def rq_eval)
  from cancellation_not_surfaced [of example_options user_config 0 s s' u u'] 1 2
  have a: "data s' = data s \<and> error s' = error s \<and> data u' = data u \<and> error u' = error u"
    by simp
  from cancellation_not_surfaced [of example_options user_config 0 p p' u u'
      "Settle 0 (Rejected network_error)"] 3
  have b: "network_error \<noteq> CanceledError" by simp
  from a b show ?thesis
    by (simp add: s'_def s_def u'_def u_def rq_eval ua_eval)
qed

text \<open>
  C8, as the code has it.  \<^verbatim>\<open>loading\<close> is false although a request is outstanding:
  in \<^verbatim>\<open>useAxios\<close> of axios4 when the first of two overlapping requests settles, in
  \<^verbatim>\<open>useRequest\<close> when a superseded request settles and when \<^verbatim>\<open>reset\<close> is called.
  \<^verbatim>\<open>loading\<close> is true although no request is outstanding: in \<^verbatim>\<open>useAxios\<close> of
  axios4 after the requests were cancelled because the URL changed, and in
  \<^verbatim>\<open>useRequest\<close> with the default \<^verbatim>\<open>manual = false\<close> before anything was run.
\<close>

theorem loading_counterexample:
  "map_option (\<lambda>s. (loading s, map rid (pending s)))
     (ua_exec [Refetch None, Render detail_config False, Refetch None, Render detail_config False,
               Settle 0 (Fulfilled 1)] (useAxios detail_config False :: nat useAxios_state))
     = Some (False, [1]) \<and>
   map_option (\<lambda>s. (loading s, map rid (pending s)))
     (rq_exec example_options user_config [Run None, Run None, Settle 0 (Rejected CanceledError)]
        (useRequest example_options))
     = Some (False, [1]) \<and>
   map_option (\<lambda>s. (loading s, map rid (pending s)))
     (rq_exec example_options user_config [Run None, Reset] (useRequest example_options))
     = Some (False, [0]) \<and>
   map_option (\<lambda>s. (mounted s, loading s, pending s))
     (ua_exec [Render user_config True, Render detail_config True,
               Settle 0 (Rejected CanceledError), Settle 1 (Rejected CanceledError)]
        (useAxios user_config True :: nat useAxios_state))
     = Some (True, True, []) \<and>
   loading (useRequest default_options) \<and> pending (useRequest default_options) = []"
  by (simp add: rq_eval ua_eval)

text \<open>
  C8, amended.  As long as calls do not overlap (no \<^verbatim>\<open>run\<close>, \<^verbatim>\<open>refresh\<close>,
  \<^verbatim>\<open>reset\<close>, \<^verbatim>\<open>refetch\<close> or re-running effect while a request is outstanding),
  \<^verbatim>\<open>loading\<close> is true exactly while a request is outstanding: in \<^verbatim>\<open>useRequest\<close>
  when it was created with \<^verbatim>\<open>manual = true\<close>, and in \<^verbatim>\<open>useAxios\<close> of axios4 as long as
  the controller its requests carry has not been aborted.
\<close>

theorem loading_tracks_outstanding_request:
  "(manual opts \<and> rq_exec opts config evs (useRequest opts) = Some s \<and>
    rq_nonoverlapping opts config evs (useRequest opts) \<longrightarrow>
      (loading s \<longleftrightarrow> pending s \<noteq> [])) \<and>
   (ua_exec uevs (useAxios uconfig immediate) = Some u \<and>
    ua_nonoverlapping uevs (useAxios uconfig immediate) \<and> 0 \<notin> aborted u \<longrightarrow>
      (loading u \<longleftrightarrow> pending u \<noteq> []))"
proof (intro conjI impI)
  assume "manual opts \<and> rq_exec opts config evs (useRequest opts) = Some s \<and>
    rq_nonoverlapping opts config evs (useRequest opts)"
  then have "manual opts" "rq_exec opts config evs (useRequest opts) = Some s"
    "rq_nonoverlapping opts config evs (useRequest opts)" by simp_all
  from useRequest_loading [OF this] show "loading s \<longleftrightarrow> pending s \<noteq> []" .
next
  assume "ua_exec uevs (useAxios uconfig immediate) = Some u \<and>
    ua_nonoverlapping uevs (useAxios uconfig immediate) \<and> 0 \<notin> aborted u"
  then have "ua_exec uevs (useAxios uconfig immediate) = Some u"
    "ua_nonoverlapping uevs (useAxios uconfig immediate)" "0 \<notin> aborted u" by simp_all
  from useAxios_loading [OF this] show "loading u \<longleftrightarrow> pending u \<noteq> []" .
qed

theorem loading_tracks_outstanding_request_witness:
  "manual example_options \<and>
   rq_nonoverlapping example_options user_config
     [Run None, Settle 0 (Fulfilled 1), Refresh] (useRequest example_options) \<and>
   map_option (\<lambda>s. (loading s, map rid (pending s)))
     (rq_exec example_options user_config [Run None, Settle 0 (Fulfilled 1), Refresh]
        (useRequest example_options)) = Some (True, [1]) \<and>
   ua_nonoverlapping [Render user_config True, Settle 0 (Fulfilled 1), Render user_config True]
     (useAxios user_config True :: nat useAxios_state) \<and>
   map_option (\<lambda>s. (loading s, pending s, aborted s))
     (ua_exec [Render user_config True, Settle 0 (Fulfilled 1), Render user_config True]
        (useAxios user_config True :: nat useAxios_state)) = Some (False, [], {})"
proof -
  define s where "s = the (rq_exec example_options user_config
    [Run None, Settle 0 (Fulfilled 1), Refresh] (useRequest example_options))"
  define u where "u = the (ua_exec
    [Render user_config True, Settle 0 (Fulfilled 1), Render user_config True]
    (useAxios user_config True :: nat useAxios_state))"
  have 1: "manual example_options" by (simp add: example_options_def)
  have 2: "rq_exec example_options user_config [Run None, Settle 0 (Fulfilled 1), Refresh]
      (useRequest example_options) = Some s"
    by (simp add: s_def rq_eval)
  have 3: "rq_nonoverlapping example_options user_config
      [Run None, Settle 0 (Fulfilled 1), Refresh] (useRequest example_options)"
    by (simp add: rq_calm_def rq_eval)
  have 4: "ua_exec [Render user_config True, Settle 0 (Fulfilled 1), Render user_config True]
      (useAxios user_config True) = Some u"
    by (simp add: u_def ua_eval)
  have 5: "ua_nonoverlapping
      [Render user_config True, Settle 0 (Fulfilled 1), Render user_config True]
      (useAxios user_config True :: nat useAxios_state)"
    by (simp add: ua_calm_def ua_eval)
  have 6: "0 \<notin> aborted u" by (simp add: u_def ua_eval)
  from loading_tracks_outstanding_request [of example_options user_config
      "[Run None, Settle 0 (Fulfilled 1), Refresh]" s
      "[Render user_config True, Settle 0 (Fulfilled 1), Render user_config True]"
      user_config True u] 1 2 3 4 5 6
  have "(loading s \<longleftrightarrow> pending s \<noteq> []) \<and> (loading u \<longleftrightarrow> pending u \<noteq> [])" by simp
  then show ?thesis using 1 3 5
    by (simp add: s_def u_def rq_eval ua_eval)
qed


end
